theory Spec2Isabelle
  imports Complex_Main
begin

section \<open>Python values and strings\<close>

text \<open>
  The scraper handles three kinds of data: text (page content, URLs), the values that
  \<^verbatim>\<open>json.loads\<close> produces from a structured-data block, and the company record, a
  dictionary from field names to values. One datatype covers the values of all three.

  A \<^typ>\<open>char\<close> stands for a code point below 256, so the model covers Latin-1 text: the
  character classes below (\<^verbatim>\<open>str.isspace\<close>, \<^verbatim>\<open>str.isalnum\<close>, \<^verbatim>\<open>str.lower\<close>,
  printability for \<^verbatim>\<open>repr\<close>) are Python's on that range. A float is carried as the
  text \<^verbatim>\<open>str\<close> prints for it; the code only ever prints floats or tests them for zero.
  A dictionary is an association list looked up from the front.
\<close>

datatype pyval =
    PNone
  | PBool bool
  | PInt int
  | PFloat string
  | PStr string
  | PList "pyval list"
  | PDict "(string \<times> pyval) list"

type_synonym pydict = "(string \<times> pyval) list"

text \<open>Truthiness, as \<^verbatim>\<open>if x\<close>, \<^verbatim>\<open>not x\<close> and \<^verbatim>\<open>x or y\<close> test it.\<close>

fun truthy :: "pyval \<Rightarrow> bool" where
  "truthy PNone = False"
| "truthy (PBool b) = b"
| "truthy (PInt n) = (n \<noteq> 0)"
| "truthy (PFloat r) = (r \<noteq> ''0.0'' \<and> r \<noteq> ''-0.0'')"
| "truthy (PStr s) = (s \<noteq> [])"
| "truthy (PList xs) = (xs \<noteq> [])"
| "truthy (PDict kvs) = (kvs \<noteq> [])"

definition py_or :: "pyval \<Rightarrow> pyval \<Rightarrow> pyval" where
  "py_or a b = (if truthy a then a else b)"

text \<open>\<^verbatim>\<open>d.get(k)\<close>: the value, or \<^verbatim>\<open>None\<close> for a missing key.\<close>

definition dict_get :: "pydict \<Rightarrow> string \<Rightarrow> pyval" where
  "dict_get d k = (case map_of d k of None \<Rightarrow> PNone | Some v \<Rightarrow> v)"

subsection \<open>Character classes\<close>

definition is_space :: "char \<Rightarrow> bool" where
  "is_space c =
     (let n = (of_char c :: nat)
      in (9 \<le> n \<and> n \<le> 13) \<or> (28 \<le> n \<and> n \<le> 32) \<or> n = 133 \<or> n = 160)"

definition is_digit :: "char \<Rightarrow> bool" where
  "is_digit c = (let n = (of_char c :: nat) in 48 \<le> n \<and> n \<le> 57)"

definition digit_value :: "char \<Rightarrow> nat" where
  "digit_value c = (of_char c :: nat) - 48"

text \<open>A word character of the regular expression \<^verbatim>\<open>\b\<close>: alphanumeric or underscore.\<close>

definition is_word :: "char \<Rightarrow> bool" where
  "is_word c =
     (let n = (of_char c :: nat)
      in (48 \<le> n \<and> n \<le> 57) \<or> (65 \<le> n \<and> n \<le> 90) \<or> n = 95 \<or> (97 \<le> n \<and> n \<le> 122)
         \<or> n = 170 \<or> n = 178 \<or> n = 179 \<or> n = 181 \<or> n = 185 \<or> n = 186
         \<or> (188 \<le> n \<and> n \<le> 190) \<or> (192 \<le> n \<and> n \<le> 214) \<or> (216 \<le> n \<and> n \<le> 246)
         \<or> 248 \<le> n)"

definition lower_char :: "char \<Rightarrow> char" where
  "lower_char c =
     (let n = (of_char c :: nat)
      in if (65 \<le> n \<and> n \<le> 90) \<or> (192 \<le> n \<and> n \<le> 222 \<and> n \<noteq> 215)
         then char_of (n + 32) else c)"

definition lower :: "string \<Rightarrow> string" where
  "lower s = map lower_char s"

subsection \<open>String operations\<close>

definition lstrip :: "string \<Rightarrow> string" where
  "lstrip s = dropWhile is_space s"

definition rstrip :: "string \<Rightarrow> string" where
  "rstrip s = rev (dropWhile is_space (rev s))"

definition strip :: "string \<Rightarrow> string" where
  "strip s = rstrip (lstrip s)"

text \<open>\<^verbatim>\<open>s.rstrip(chars)\<close>: drop the trailing characters that occur in \<open>chars\<close>.\<close>

definition rstrip_chars :: "string \<Rightarrow> string \<Rightarrow> string" where
  "rstrip_chars chars s = rev (dropWhile (\<lambda>c. c \<in> set chars) (rev s))"

text \<open>\<^verbatim>\<open>needle in hay\<close> on strings.\<close>

fun contains :: "string \<Rightarrow> string \<Rightarrow> bool" where
  "contains needle [] = (needle = [])"
| "contains needle (c # cs) = (take (length needle) (c # cs) = needle \<or> contains needle cs)"

text \<open>\<^verbatim>\<open>sep.join(xs)\<close>.\<close>

fun join :: "string \<Rightarrow> string list \<Rightarrow> string" where
  "join sep [] = []"
| "join sep [x] = x"
| "join sep (x # y # ys) = x @ sep @ join sep (y # ys)"

text \<open>
  \<^verbatim>\<open>s.split()\<close>: the maximal runs of non-whitespace characters. \<open>cur\<close> is the token being
  read.
\<close>

fun split_tokens :: "string \<Rightarrow> string \<Rightarrow> string list" where
  "split_tokens cur [] = (if cur = [] then [] else [cur])"
| "split_tokens cur (c # cs) =
     (if is_space c then (if cur = [] then split_tokens [] cs else cur # split_tokens [] cs)
      else split_tokens (cur @ [c]) cs)"

definition py_split :: "string \<Rightarrow> string list" where
  "py_split s = split_tokens [] s"

text \<open>\<^verbatim>\<open>s.split(d)\<close> for a one-character separator: empty pieces are kept.\<close>

fun split_at :: "char \<Rightarrow> string \<Rightarrow> string \<Rightarrow> string list" where
  "split_at d cur [] = [cur]"
| "split_at d cur (c # cs) =
     (if c = d then cur # split_at d [] cs else split_at d (cur @ [c]) cs)"

definition split_on :: "char \<Rightarrow> string \<Rightarrow> string list" where
  "split_on d s = split_at d [] s"

text \<open>
  \<^verbatim>\<open>_whitespace_re.sub(" ", value)\<close> with \<^verbatim>\<open>_whitespace_re = re.compile(r"\s+")\<close>: every
  maximal run of whitespace becomes one space. \<open>in_run\<close> says that the previous character
  was whitespace, whose space has been written already.
\<close>

fun whitespace_sub :: "bool \<Rightarrow> string \<Rightarrow> string" where
  "whitespace_sub in_run [] = []"
| "whitespace_sub in_run (c # cs) =
     (if is_space c then (if in_run then whitespace_sub True cs
                          else CHR '' '' # whitespace_sub True cs)
      else c # whitespace_sub False cs)"

subsection \<open>Printing values: \<^verbatim>\<open>str\<close> and \<^verbatim>\<open>repr\<close>\<close>

fun str_nat :: "nat \<Rightarrow> string" where
  "str_nat n = (if n < 10 then [''0123456789'' ! n]
                else str_nat (n div 10) @ [''0123456789'' ! (n mod 10)])"

declare str_nat.simps [simp del]

definition str_int :: "int \<Rightarrow> string" where
  "str_int i = (if i < 0 then CHR ''-'' # str_nat (nat (- i)) else str_nat (nat i))"

definition hex_digit :: "nat \<Rightarrow> char" where
  "hex_digit n = ''0123456789abcdef'' ! n"

text \<open>
  One character inside \<^verbatim>\<open>repr(s)\<close>, with \<open>q\<close> the quote chosen for the literal: the
  quote and the backslash are escaped, tab, newline and carriage return have their
  letters, every other non-printable code point is written \<^verbatim>\<open>\xhh\<close>.
\<close>

definition repr_char :: "char \<Rightarrow> char \<Rightarrow> string" where
  "repr_char q c =
     (let n = (of_char c :: nat)
      in if c = q \<or> c = CHR 0x5C then [CHR 0x5C, c]
         else if n = 9 then [CHR 0x5C, CHR ''t'']
         else if n = 10 then [CHR 0x5C, CHR ''n'']
         else if n = 13 then [CHR 0x5C, CHR ''r'']
         else if n < 32 \<or> (127 \<le> n \<and> n \<le> 160) \<or> n = 173
           then [CHR 0x5C, CHR ''x'', hex_digit (n div 16), hex_digit (n mod 16)]
         else [c])"

definition repr_str :: "string \<Rightarrow> string" where
  "repr_str s =
     (let q = (if CHR 0x27 \<in> set s \<and> CHR 0x22 \<notin> set s then CHR 0x22 else CHR 0x27)
      in q # concat (map (repr_char q) s) @ [q])"

fun py_repr :: "pyval \<Rightarrow> string" where
  "py_repr PNone = ''None''"
| "py_repr (PBool b) = (if b then ''True'' else ''False'')"
| "py_repr (PInt n) = str_int n"
| "py_repr (PFloat r) = r"
| "py_repr (PStr s) = repr_str s"
| "py_repr (PList xs) = ''['' @ join '', '' (map py_repr xs) @ '']''"
| "py_repr (PDict kvs) =
     ''{'' @ join '', '' (map (\<lambda>(k, v). repr_str k @ '': '' @ py_repr v) kvs) @ ''}''"

definition py_str :: "pyval \<Rightarrow> string" where
  "py_str v = (case v of PStr s \<Rightarrow> s | _ \<Rightarrow> py_repr v)"

subsection \<open>Reading an integer: \<^verbatim>\<open>int(text)\<close>\<close>

text \<open>
  \<^verbatim>\<open>int\<close> accepts surrounding whitespace, one sign, and decimal digits in which single
  underscores may separate digits; anything else raises \<^verbatim>\<open>ValueError\<close>, here \<open>None\<close>.
  (The interpreter's optional limit on the number of digits, which also raises
  \<^verbatim>\<open>ValueError\<close>, is not modelled.)
\<close>

fun parse_digits :: "nat \<Rightarrow> string \<Rightarrow> nat option" where
  "parse_digits acc [] = Some acc"
| "parse_digits acc [c] = (if is_digit c then Some (acc * 10 + digit_value c) else None)"
| "parse_digits acc (c # d # cs) =
     (if is_digit c then parse_digits (acc * 10 + digit_value c) (d # cs)
      else if c = CHR ''_'' \<and> is_digit d then parse_digits (acc * 10 + digit_value d) cs
      else None)"

definition parse_unsigned :: "string \<Rightarrow> nat option" where
  "parse_unsigned s =
     (case s of [] \<Rightarrow> None
      | c # cs \<Rightarrow> if is_digit c then parse_digits (digit_value c) cs else None)"

definition py_int :: "string \<Rightarrow> int option" where
  "py_int text =
     (case strip text of
        [] \<Rightarrow> None
      | c # cs \<Rightarrow>
          if c = CHR ''-'' then map_option (\<lambda>n. - int n) (parse_unsigned cs)
          else if c = CHR ''+'' then map_option int (parse_unsigned cs)
          else map_option int (parse_unsigned (c # cs)))"

section \<open>The normalizers of \<^verbatim>\<open>utils_cleaner.py\<close>\<close>

definition clean_text :: "pyval \<Rightarrow> pyval" where
  "clean_text value =
     (if value = PNone then PNone
      else
        let v = (case value of PStr s \<Rightarrow> s | _ \<Rightarrow> py_str value);
            cleaned = strip (whitespace_sub False v)
        in if cleaned = [] then PNone else PStr cleaned)"

text \<open>
  \<^verbatim>\<open>safe_int\<close>. \<^verbatim>\<open>isinstance(value, int)\<close> holds of booleans too, which are returned as
  they are. The \<^verbatim>\<open>ValueError\<close> of \<^verbatim>\<open>int\<close> is caught and becomes \<^verbatim>\<open>None\<close>.
\<close>

definition safe_int :: "pyval \<Rightarrow> pyval" where
  "safe_int value =
     (case value of
        PNone \<Rightarrow> PNone
      | PInt n \<Rightarrow> PInt n
      | PBool b \<Rightarrow> PBool b
      | _ \<Rightarrow>
          let text = strip (filter (\<lambda>c. c \<noteq> CHR '','') (py_str value))
          in if text = [] then PNone
             else (case py_int text of None \<Rightarrow> PNone | Some n \<Rightarrow> PInt n))"

definition safe_str :: "pyval \<Rightarrow> string" where
  "safe_str value =
     (case value of PNone \<Rightarrow> [] | PStr s \<Rightarrow> s | _ \<Rightarrow> py_str value)"

text \<open>
  \<^verbatim>\<open>extract_year\<close> searches \<^verbatim>\<open>\b(19\d{2}|20\d{2})\b\<close>. \<open>year_at\<close> matches the group and the
  closing boundary at the head of the text; \<open>search_year\<close> tries each position from the
  left, \<open>prev\<close> telling whether the character before it is a word character (the opening
  boundary needs it not to be).
\<close>

fun year_at :: "string \<Rightarrow> string option" where
  "year_at (a # b # c # d # rest) =
     (if ((a = CHR ''1'' \<and> b = CHR ''9'') \<or> (a = CHR ''2'' \<and> b = CHR ''0''))
         \<and> is_digit c \<and> is_digit d
         \<and> (case rest of [] \<Rightarrow> True | e # _ \<Rightarrow> \<not> is_word e)
      then Some [a, b, c, d] else None)"
| "year_at _ = None"

fun search_year :: "bool \<Rightarrow> string \<Rightarrow> string option" where
  "search_year prev [] = None"
| "search_year prev (c # cs) =
     (if prev then search_year (is_word c) cs
      else (case year_at (c # cs) of
              Some y \<Rightarrow> Some y
            | None \<Rightarrow> search_year (is_word c) cs))"

definition extract_year :: "string \<Rightarrow> pyval" where
  "extract_year text =
     (if text = [] then PNone
      else (case search_year False text of
              None \<Rightarrow> PNone
            | Some y \<Rightarrow> safe_int (PStr y)))"

section \<open>The company record and the structured-data extractor\<close>

text \<open>
  The record under construction is the dictionary \<^verbatim>\<open>target\<close>: a map from field names to
  values, where a key bound to \<^const>\<open>PNone\<close> (field present, value absent) differs from a
  key that is not bound at all. \<open>tget\<close> is \<^verbatim>\<open>target.get(k)\<close>.
\<close>

type_synonym company = "string \<rightharpoonup> pyval"

definition tget :: "company \<Rightarrow> string \<Rightarrow> pyval" where
  "tget target k = (case target k of None \<Rightarrow> PNone | Some v \<Rightarrow> v)"

text \<open>The type filter at the head of \<^verbatim>\<open>_apply_json_ld\<close>.\<close>

definition is_candidate :: "pydict \<Rightarrow> bool" where
  "is_candidate node =
     (let node_type = lower (safe_str (dict_get node ''@type''))
      in contains ''organization'' node_type \<or> contains ''corp'' node_type
         \<or> contains ''company'' node_type)"

text \<open>
  \<^verbatim>\<open>getattr(x, "name", None)\<close> for a value \<open>x\<close> that \<^verbatim>\<open>json.loads\<close> produced: none of
  \<^verbatim>\<open>dict\<close>, \<^verbatim>\<open>list\<close>, \<^verbatim>\<open>int\<close>, \<^verbatim>\<open>float\<close>, \<^verbatim>\<open>bool\<close> and \<^verbatim>\<open>NoneType\<close> has an attribute
  called \<^verbatim>\<open>name\<close> (a dictionary's keys are not attributes), so the default is returned.
\<close>

definition getattr_name :: "pyval \<Rightarrow> pyval" where
  "getattr_name x = PNone"

text \<open>
  The body of \<^verbatim>\<open>_apply_json_ld\<close> after the filter is a sequence of independent blocks,
  one per field group; each is a function of the node and the record here, in the
  order of the source.
\<close>

definition ld_name :: "pydict \<Rightarrow> company \<Rightarrow> company" where
  "ld_name node target =
     (let name = clean_text (dict_get node ''name'')
      in if truthy name then target(''company_name'' \<mapsto> name) else target)"

definition ld_url :: "pydict \<Rightarrow> company \<Rightarrow> company" where
  "ld_url node target =
     (let url = clean_text (dict_get node ''url'')
      in if truthy url then target(''company_website'' \<mapsto> url) else target)"

definition address_of :: "pydict \<Rightarrow> pyval" where
  "address_of node =
     (let address = dict_get node ''address''
      in case address of PList (first # _) \<Rightarrow> first | _ \<Rightarrow> address)"

definition address_country :: "pydict \<Rightarrow> pyval" where
  "address_country address =
     (let country = dict_get address ''addressCountry''
      in clean_text (case country of PStr s \<Rightarrow> country | _ \<Rightarrow> getattr_name country))"

definition ld_address :: "pydict \<Rightarrow> company \<Rightarrow> company" where
  "ld_address node target =
     (case address_of node of
        PDict address \<Rightarrow>
          target(''company_address_type'' \<mapsto> clean_text (dict_get address ''@type''),
                 ''company_street'' \<mapsto> clean_text (dict_get address ''streetAddress''),
                 ''company_locality'' \<mapsto> clean_text (dict_get address ''addressLocality''),
                 ''company_region'' \<mapsto> clean_text (dict_get address ''addressRegion''),
                 ''company_postal_code'' \<mapsto> clean_text (dict_get address ''postalCode''),
                 ''company_country'' \<mapsto> address_country address)
      | _ \<Rightarrow> target)"

definition ld_description :: "pydict \<Rightarrow> company \<Rightarrow> company" where
  "ld_description node target =
     (let description = clean_text (dict_get node ''description'')
      in if truthy description \<and> \<not> truthy (tget target ''company_about_us'')
         then target(''company_about_us'' \<mapsto> description) else target)"

definition ld_employees :: "pydict \<Rightarrow> company \<Rightarrow> company" where
  "ld_employees node target =
     (let employees = py_or (dict_get node ''numberOfEmployees'') (dict_get node ''employees'')
      in if truthy employees \<and> \<not> truthy (tget target ''company_employees_on_linkedin'')
         then target(''company_employees_on_linkedin'' \<mapsto> safe_int employees) else target)"

definition ld_logo :: "pydict \<Rightarrow> company \<Rightarrow> company" where
  "ld_logo node target =
     (if \<not> truthy (tget target ''company_logo'')
      then (let logo = dict_get node ''logo''
            in case logo of
                 PDict d \<Rightarrow> target(''company_logo'' \<mapsto> clean_text (dict_get d ''url''))
               | _ \<Rightarrow> target(''company_logo'' \<mapsto> clean_text logo))
      else target)"

definition ld_industry :: "pydict \<Rightarrow> company \<Rightarrow> company" where
  "ld_industry node target =
     (if \<not> truthy (tget target ''company_industry'')
      then (let industry = clean_text (dict_get node ''industry'')
            in if truthy industry then target(''company_industry'' \<mapsto> industry) else target)
      else target)"

definition ld_founded :: "pydict \<Rightarrow> company \<Rightarrow> company" where
  "ld_founded node target =
     (if \<not> truthy (tget target ''company_founded'')
      then (let founded = extract_year (safe_str
                  (py_or (dict_get node ''foundingDate'') (dict_get node ''foundingYear'')))
            in if truthy founded then target(''company_founded'' \<mapsto> founded) else target)
      else target)"

definition ld_size :: "pydict \<Rightarrow> company \<Rightarrow> company" where
  "ld_size node target =
     (if \<not> truthy (tget target ''company_size'')
      then (let employees_range =
                  py_or (dict_get node ''employeesRange'') (dict_get node ''employeeRange'')
            in if truthy employees_range
               then target(''company_size'' \<mapsto> clean_text employees_range) else target)
      else target)"

definition ld_headquarters :: "pydict \<Rightarrow> company \<Rightarrow> company" where
  "ld_headquarters node target =
     (if \<not> truthy (tget target ''company_headquarters'')
      then (let hq = py_or (dict_get node ''foundingLocation'') (dict_get node ''location'')
            in case hq of
                 PDict d \<Rightarrow>
                   target(''company_headquarters'' \<mapsto>
                     clean_text (py_or (py_or (dict_get d ''name'') (dict_get d ''addressLocality''))
                                       (dict_get d ''addressRegion'')))
               | PStr s \<Rightarrow> target(''company_headquarters'' \<mapsto> clean_text hq)
               | _ \<Rightarrow> target)
      else target)"

text \<open>
  The strings that the comprehension \<^verbatim>\<open>[s for s in (clean_text(x) for x in specialties) if s]\<close>
  keeps; \<^const>\<open>clean_text\<close> returns a string or \<^verbatim>\<open>None\<close>, and only non-empty strings
  are truthy.
\<close>

definition cleaned_strings :: "pyval list \<Rightarrow> string list" where
  "cleaned_strings xs =
     concat (map (\<lambda>x. case clean_text x of PStr s \<Rightarrow> (if s \<noteq> [] then [s] else []) | _ \<Rightarrow> []) xs)"

definition specialties_of :: "pydict \<Rightarrow> pyval" where
  "specialties_of node =
     py_or (py_or (dict_get node ''knowsAbout'') (dict_get node ''specialty''))
           (dict_get node ''specialties'')"

definition ld_specialties :: "pydict \<Rightarrow> company \<Rightarrow> company" where
  "ld_specialties node target =
     (if \<not> truthy (tget target ''company_specialties'')
      then (let specialties = specialties_of node
            in case specialties of
                 PList xs \<Rightarrow>
                   target(''company_specialties'' \<mapsto> PStr (join '', '' (cleaned_strings xs)))
               | PStr s \<Rightarrow> target(''company_specialties'' \<mapsto> clean_text specialties)
               | _ \<Rightarrow> target)
      else target)"

definition apply_json_ld :: "pydict \<Rightarrow> company \<Rightarrow> company" where
  "apply_json_ld node target =
     (if \<not> is_candidate node then target
      else ld_specialties node (ld_headquarters node (ld_size node (ld_founded node
             (ld_industry node (ld_logo node (ld_employees node (ld_description node
               (ld_address node (ld_url node (ld_name node target)))))))))))"

section \<open>Exceptions, the document and the outside world\<close>

text \<open>
  An exception is a value; its string is what \<^verbatim>\<open>str(exc)\<close> prints. The classes are the
  ones the source tells apart: \<^verbatim>\<open>requests.RequestException\<close> (caught and retried by the
  fetcher), \<^verbatim>\<open>json.JSONDecodeError\<close> (caught per block), the \<^verbatim>\<open>RuntimeError\<close> the fetcher
  raises itself, and any other subclass of \<^verbatim>\<open>Exception\<close>.
\<close>

datatype exn =
    RequestException string
  | JSONDecodeError string
  | RuntimeError string
  | OtherException string

fun exn_str :: "exn \<Rightarrow> string" where
  "exn_str (RequestException m) = m"
| "exn_str (JSONDecodeError m) = m"
| "exn_str (RuntimeError m) = m"
| "exn_str (OtherException m) = m"

fun is_request_exception :: "exn \<Rightarrow> bool" where
  "is_request_exception (RequestException m) = True"
| "is_request_exception _ = False"

fun is_json_decode_error :: "exn \<Rightarrow> bool" where
  "is_json_decode_error (JSONDecodeError m) = True"
| "is_json_decode_error _ = False"

text \<open>
  What the parser reads of a parsed page: for every \<^verbatim>\<open><script type="application/ld+json">\<close>
  its text (\<^verbatim>\<open>script.string or script.text\<close>), the string of the title tag when there is
  one, the \<^verbatim>\<open>meta\<close> tags in document order with their \<^verbatim>\<open>name\<close>, \<^verbatim>\<open>property\<close> and
  \<^verbatim>\<open>content\<close> attributes, and the visible text \<^verbatim>\<open>soup.get_text(" ", strip=True)\<close>.
\<close>

record meta_tag =
  meta_name :: "string option"
  meta_property :: "string option"
  meta_content :: "string option"

record soup =
  ld_scripts :: "string list"
  title_string :: "string option"
  metas :: "meta_tag list"
  body_text :: string

text \<open>An HTTP answer: the status code and the body.\<close>

datatype get_result = Response int string | Raises exn

text \<open>
  The libraries and devices the scraper calls are parameters: the transport
  \<^verbatim>\<open>session.get\<close> (with the session's headers, the time-out and the proxies of the batch),
  asked with the URL and the number of requests sent before; the random source, asked
  with the number of draws made before; the HTML parser; and \<^verbatim>\<open>json.loads\<close>.
  Seconds are rationals: the back-off terms of the claims are dyadic and exact.
\<close>

record env =
  session_get :: "string \<Rightarrow> nat \<Rightarrow> get_result"
  random_uniform :: "nat \<Rightarrow> rat"
  BeautifulSoup :: "string \<Rightarrow> exn + soup"
  json_loads :: "string \<Rightarrow> exn + pyval"

record world =
  requests_sent :: nat
  draws_made :: nat
  slept :: "rat list"

text \<open>The configuration fields of the dataclass \<^verbatim>\<open>LinkedInCompanyScraper\<close>.\<close>

record scraper =
  timeout :: int
  max_retries :: int
  backoff_factor :: rat
  user_agent :: string

subsection \<open>\<^verbatim>\<open>_parse_from_json_ld\<close>\<close>

definition apply_entry :: "pyval \<Rightarrow> company \<Rightarrow> company" where
  "apply_entry entry target =
     (case entry of PDict node \<Rightarrow> apply_json_ld node target | _ \<Rightarrow> target)"

definition apply_parsed :: "pyval \<Rightarrow> company \<Rightarrow> company" where
  "apply_parsed parsed target =
     (case parsed of
        PList entries \<Rightarrow> fold apply_entry entries target
      | PDict node \<Rightarrow> apply_json_ld node target
      | _ \<Rightarrow> target)"

text \<open>
  The loop over the script blocks. An empty text and a \<^verbatim>\<open>JSONDecodeError\<close> skip the block;
  any other exception of \<^verbatim>\<open>json.loads\<close> is not caught here and leaves the function.
\<close>

fun parse_from_json_ld :: "env \<Rightarrow> string list \<Rightarrow> company \<Rightarrow> exn + company" where
  "parse_from_json_ld E [] target = Inr target"
| "parse_from_json_ld E (txt # scripts) target =
     (if txt = [] then parse_from_json_ld E scripts target
      else (case json_loads E txt of
              Inl exc \<Rightarrow>
                if is_json_decode_error exc then parse_from_json_ld E scripts target
                else Inl exc
            | Inr parsed \<Rightarrow> parse_from_json_ld E scripts (apply_parsed parsed target)))"

section \<open>The heuristic extractor\<close>

text \<open>
  \<^verbatim>\<open>_find_meta_content\<close>: for each key, the first tag with that \<^verbatim>\<open>name\<close>, or else the first
  with that \<^verbatim>\<open>property\<close>; its content is returned when it is non-empty, otherwise the
  next key is tried.
\<close>

fun find_meta_content :: "meta_tag list \<Rightarrow> string list \<Rightarrow> pyval" where
  "find_meta_content ms [] = PNone"
| "find_meta_content ms (key # keys) =
     (let tag = (case find (\<lambda>m. meta_name m = Some key) ms of
                   Some t \<Rightarrow> Some t
                 | None \<Rightarrow> find (\<lambda>m. meta_property m = Some key) ms)
      in case tag of
           None \<Rightarrow> find_meta_content ms keys
         | Some t \<Rightarrow>
             (case meta_content t of
                None \<Rightarrow> find_meta_content ms keys
              | Some c \<Rightarrow> if c \<noteq> [] then PStr c else find_meta_content ms keys))"

text \<open>
  \<^verbatim>\<open>_extract_number_near_keyword\<close>. \<open>prev\<close> is the token before the current one, \<open>None\<close> at
  the first token (the test \<^verbatim>\<open>i > 0\<close>).
\<close>

fun scan_tokens :: "string \<Rightarrow> string option \<Rightarrow> string list \<Rightarrow> pyval" where
  "scan_tokens keyword prev [] = PNone"
| "scan_tokens keyword prev (token # rest) =
     (case prev of
        None \<Rightarrow> scan_tokens keyword (Some token) rest
      | Some previous \<Rightarrow>
          if contains keyword (lower token)
          then (let candidate = rstrip_chars [CHR ''+'', CHR 0xB7] previous;
                    value = safe_int (PStr candidate)
                in if value \<noteq> PNone then value else scan_tokens keyword (Some token) rest)
          else scan_tokens keyword (Some token) rest)"

definition extract_number_near_keyword :: "string \<Rightarrow> string \<Rightarrow> pyval" where
  "extract_number_near_keyword text keyword = scan_tokens (lower keyword) None (py_split text)"

text \<open>The blocks of \<^verbatim>\<open>_parse_from_meta_and_title\<close>, in the order of the source.\<close>

definition meta_title :: "soup \<Rightarrow> company \<Rightarrow> company" where
  "meta_title doc target =
     (if \<not> truthy (tget target ''company_name'')
      then (case title_string doc of
              None \<Rightarrow> target
            | Some s \<Rightarrow>
                if s = [] then target
                else (case clean_text (PStr s) of
                        PStr title \<Rightarrow>
                          (if title = [] then target
                           else (case filter (\<lambda>p. p \<noteq> []) (map strip (split_on (CHR ''|'') title)) of
                                   [] \<Rightarrow> target
                                 | piece # _ \<Rightarrow> target(''company_name'' \<mapsto> PStr piece)))
                      | _ \<Rightarrow> target))
      else target)"

definition meta_description :: "soup \<Rightarrow> company \<Rightarrow> company" where
  "meta_description doc target =
     (if \<not> truthy (tget target ''company_about_us'')
      then (let desc = find_meta_content (metas doc) [''description'', ''og:description'']
            in if truthy desc
               then (let target1 = target(''company_about_us'' \<mapsto> clean_text desc)
                     in if \<not> truthy (tget target1 ''company_twitter_description'')
                        then target1(''company_twitter_description'' \<mapsto> clean_text desc)
                        else target1)
               else target)
      else target)"

definition meta_logo :: "soup \<Rightarrow> company \<Rightarrow> company" where
  "meta_logo doc target =
     (if \<not> truthy (tget target ''company_logo'')
      then (let logo = find_meta_content (metas doc) [''og:logo'', ''og:image'', ''twitter:image'']
            in if truthy logo then target(''company_logo'' \<mapsto> clean_text logo) else target)
      else target)"

definition meta_cover :: "soup \<Rightarrow> company \<Rightarrow> company" where
  "meta_cover doc target =
     (if \<not> truthy (tget target ''company_cover_image'')
      then (let cover = find_meta_content (metas doc) [''og:image'', ''twitter:image'']
            in if truthy cover then target(''company_cover_image'' \<mapsto> clean_text cover)
               else target)
      else target)"

definition meta_slogan :: "soup \<Rightarrow> company \<Rightarrow> company" where
  "meta_slogan doc target =
     (if \<not> truthy (tget target ''company_slogan'')
      then (let headline = find_meta_content (metas doc) [''og:title'', ''twitter:title'']
            in if truthy headline
               then (let headline = clean_text headline
                     in if truthy headline \<and> truthy (tget target ''company_name'')
                           \<and> headline \<noteq> tget target ''company_name''
                        then target(''company_slogan'' \<mapsto> headline) else target)
               else target)
      else target)"

definition text_followers :: "string \<Rightarrow> company \<Rightarrow> company" where
  "text_followers text target =
     (if \<not> truthy (tget target ''company_followers_on_linkedin'')
      then (let followers = extract_number_near_keyword text ''followers''
            in if followers \<noteq> PNone
               then target(''company_followers_on_linkedin'' \<mapsto> followers) else target)
      else target)"

definition text_employees :: "string \<Rightarrow> company \<Rightarrow> company" where
  "text_employees text target =
     (if \<not> truthy (tget target ''company_employees_on_linkedin'')
      then (let employees = extract_number_near_keyword text ''employees''
            in if employees \<noteq> PNone
               then target(''company_employees_on_linkedin'' \<mapsto> employees) else target)
      else target)"

definition text_counters :: "soup \<Rightarrow> company \<Rightarrow> company" where
  "text_counters doc target =
     (if body_text doc \<noteq> []
      then text_employees (body_text doc) (text_followers (body_text doc) target)
      else target)"

definition parse_from_meta_and_title :: "soup \<Rightarrow> company \<Rightarrow> company" where
  "parse_from_meta_and_title doc target =
     text_counters doc (meta_slogan doc (meta_cover doc (meta_logo doc
       (meta_description doc (meta_title doc target)))))"

section \<open>Parsing one page, fetching, and the batch\<close>

definition company_fields :: "string list" where
  "company_fields =
     [''company_name'', ''company_profile'', ''company_website'', ''company_address_type'',
      ''company_street'', ''company_locality'', ''company_region'', ''company_postal_code'',
      ''company_country'', ''company_employees_on_linkedin'', ''company_followers_on_linkedin'',
      ''company_logo'', ''company_cover_image'', ''company_slogan'',
      ''company_twitter_description'', ''company_about_us'', ''company_industry'',
      ''company_size'', ''company_headquarters'', ''company_organization_type'',
      ''company_founded'', ''company_specialties'']"

text \<open>The dictionary literal of \<^verbatim>\<open>_parse_company\<close>.\<close>

definition new_record :: "string \<Rightarrow> company" where
  "new_record url =
     (\<lambda>k. if k = ''company_profile'' then Some (PStr url)
          else if k \<in> set company_fields then Some PNone else None)"

definition parse_company :: "env \<Rightarrow> string \<Rightarrow> string \<Rightarrow> exn + company" where
  "parse_company E html url =
     (case BeautifulSoup E html of
        Inl exc \<Rightarrow> Inl exc
      | Inr doc \<Rightarrow>
          (case parse_from_json_ld E (ld_scripts doc) (new_record url) of
             Inl exc \<Rightarrow> Inl exc
           | Inr data \<Rightarrow> Inr (parse_from_meta_and_title doc data)))"

text \<open>
  The end of one failed attempt: \<^verbatim>\<open>sleep_for = backoff_factor * 2 ** (attempt - 1) +
  random.uniform(0, 0.5)\<close>, then \<^verbatim>\<open>time.sleep(sleep_for)\<close>. The sleep is recorded.
\<close>

definition backoff_sleep :: "env \<Rightarrow> scraper \<Rightarrow> int \<Rightarrow> world \<Rightarrow> world" where
  "backoff_sleep E S attempt w =
     (let sleep_for = backoff_factor S * 2 ^ nat (attempt - 1) + random_uniform E (draws_made w)
      in w\<lparr>draws_made := draws_made w + 1, slept := slept w @ [sleep_for]\<rparr>)"

text \<open>
  The loop of \<^verbatim>\<open>_fetch_company_page\<close> over the attempts that remain, and what follows it.
  An exception of the transport that is not a \<^verbatim>\<open>RequestException\<close> is not caught.
\<close>

fun fetch_attempts ::
  "env \<Rightarrow> scraper \<Rightarrow> string \<Rightarrow> int list \<Rightarrow> exn option \<Rightarrow> world \<Rightarrow> (exn + string) \<times> world"
where
  "fetch_attempts E S url [] last_exc w =
     (case last_exc of
        Some exc \<Rightarrow> (Inl exc, w)
      | None \<Rightarrow> (Inl (RuntimeError (''Failed to fetch '' @ url)), w))"
| "fetch_attempts E S url (attempt # rest) last_exc w =
     (let w1 = w\<lparr>requests_sent := requests_sent w + 1\<rparr>
      in case session_get E url (requests_sent w) of
           Response status_code text \<Rightarrow>
             if 200 \<le> status_code \<and> status_code < 300 then (Inr text, w1)
             else fetch_attempts E S url rest last_exc (backoff_sleep E S attempt w1)
         | Raises exc \<Rightarrow>
             if is_request_exception exc
             then fetch_attempts E S url rest (Some exc) (backoff_sleep E S attempt w1)
             else (Inl exc, w1))"

definition fetch_company_page ::
  "env \<Rightarrow> scraper \<Rightarrow> string \<Rightarrow> world \<Rightarrow> (exn + string) \<times> world"
where
  "fetch_company_page E S url w = fetch_attempts E S url [1 .. max_retries S] None w"

text \<open>The record of the \<^verbatim>\<open>except\<close> branch of \<^verbatim>\<open>scrape_profiles\<close>.\<close>

definition skeleton :: "string \<Rightarrow> exn \<Rightarrow> company" where
  "skeleton url exc =
     [''company_name'' \<mapsto> PNone, ''company_profile'' \<mapsto> PStr url,
      ''error'' \<mapsto> PStr (exn_str exc)]"

text \<open>The body of the loop of \<^verbatim>\<open>scrape_profiles\<close>: the record appended for one URL.\<close>

definition scrape_one :: "env \<Rightarrow> scraper \<Rightarrow> string \<Rightarrow> world \<Rightarrow> company \<times> world" where
  "scrape_one E S url w =
     (case fetch_company_page E S url w of
        (Inl exc, w1) \<Rightarrow> (skeleton url exc, w1)
      | (Inr html, w1) \<Rightarrow>
          (case parse_company E html url of
             Inl exc \<Rightarrow> (skeleton url exc, w1)
           | Inr company \<Rightarrow> (company, w1)))"

fun scrape_loop :: "env \<Rightarrow> scraper \<Rightarrow> string list \<Rightarrow> world \<Rightarrow> company list \<times> world" where
  "scrape_loop E S [] w = ([], w)"
| "scrape_loop E S (url # urls) w =
     (let (company, w1) = scrape_one E S url w;
          (results, w2) = scrape_loop E S urls w1
      in (company # results, w2))"

definition scrape_profiles ::
  "env \<Rightarrow> scraper \<Rightarrow> string list \<Rightarrow> world \<Rightarrow> company list \<times> world"
where
  "scrape_profiles E S urls w = (if urls = [] then ([], w) else scrape_loop E S urls w)"

section \<open>Notions used to state the properties\<close>


text \<open>
  The fields a structured-data node writes whatever they hold, and all the fields it can
  write.
\<close>

definition overwrite_fields :: "string list" where
  "overwrite_fields =
     [''company_name'', ''company_website'', ''company_address_type'', ''company_street'',
      ''company_locality'', ''company_region'', ''company_postal_code'', ''company_country'']"

definition ld_fields :: "string list" where
  "ld_fields = overwrite_fields @
     [''company_about_us'', ''company_employees_on_linkedin'', ''company_logo'',
      ''company_industry'', ''company_founded'', ''company_size'', ''company_headquarters'',
      ''company_specialties'']"

text \<open>
  What one block of \<^verbatim>\<open>_apply_json_ld\<close> does to one field, as a function of the field's
  binding alone: nothing (\<open>w = None\<close>), or the write of a value \<open>v\<close>, which a guarded
  block (\<open>g\<close>) makes only when the field does not hold a truthy value. A step is local
  when it acts on every field in this way, writes only fields of \<^const>\<open>ld_fields\<close>, and
  is guarded outside \<^const>\<open>overwrite_fields\<close>.
\<close>

definition act :: "pyval option \<Rightarrow> bool \<Rightarrow> pyval option \<Rightarrow> pyval option" where
  "act w g x =
     (case w of
        None \<Rightarrow> x
      | Some v \<Rightarrow> if g \<and> truthy (case x of None \<Rightarrow> PNone | Some y \<Rightarrow> y) then x else Some v)"

definition local_step :: "(company \<Rightarrow> company) \<Rightarrow> bool" where
  "local_step f =
     (\<forall>k. \<exists>w g. (w \<noteq> None \<longrightarrow> k \<in> set ld_fields) \<and> (k \<notin> set overwrite_fields \<longrightarrow> g)
              \<and> (\<forall>t. f t k = act w g (t k)))"

text \<open>
  The fields the heuristic extractor can write. A step fills when it changes a field
  only if that field held no truthy value, the field is one of these, and the field is
  bound afterwards.
\<close>

definition meta_fields :: "string list" where
  "meta_fields =
     [''company_name'', ''company_about_us'', ''company_twitter_description'', ''company_logo'',
      ''company_cover_image'', ''company_slogan'', ''company_followers_on_linkedin'',
      ''company_employees_on_linkedin'']"

definition fills :: "(company \<Rightarrow> company) \<Rightarrow> bool" where
  "fills f =
     (\<forall>t k. f t k = t k \<or> (\<not> truthy (tget t k) \<and> k \<in> set meta_fields \<and> f t k \<noteq> None))"

text \<open>
  The exception raised inside the \<^verbatim>\<open>try\<close> block of \<^verbatim>\<open>scrape_profiles\<close> for one URL, by the
  fetch or by the parse, if any; the world in which the URL at position \<open>i\<close> of a batch is
  processed; and an answer of the transport that does not end the retries with a page.
\<close>

definition failure_of :: "env \<Rightarrow> scraper \<Rightarrow> string \<Rightarrow> world \<Rightarrow> exn option" where
  "failure_of E S url w =
     (case fetch_company_page E S url w of
        (Inl exc, w1) \<Rightarrow> Some exc
      | (Inr html, w1) \<Rightarrow>
          (case parse_company E html url of Inl exc \<Rightarrow> Some exc | Inr company \<Rightarrow> None))"

definition world_before :: "env \<Rightarrow> scraper \<Rightarrow> string list \<Rightarrow> world \<Rightarrow> nat \<Rightarrow> world" where
  "world_before E S urls w i = snd (scrape_loop E S (take i urls) w)"

definition answer_fails :: "get_result \<Rightarrow> bool" where
  "answer_fails r =
     (case r of
        Response status_code text \<Rightarrow> \<not> (200 \<le> status_code \<and> status_code < 300)
      | Raises exc \<Rightarrow> True)"

subsection \<open>A small world to run the scraper in\<close>

text \<open>
  Three URLs: one answered with a page, one answered 503 at every attempt, one answered
  with a page the HTML parser faults on. The page holds two structured-data blocks, the
  second of which does not decode; the script texts are the keys under which the
  \<^verbatim>\<open>json.loads\<close> of this world knows its answers. \<open>default_scraper\<close> has the defaults of
  the dataclass.
\<close>

definition acme_url :: string where
  "acme_url = ''https://www.linkedin.com/company/acme''"

definition gone_url :: string where
  "gone_url = ''https://www.linkedin.com/company/gone''"

definition odd_url :: string where
  "odd_url = ''https://www.linkedin.com/company/odd''"

definition acme_first_node :: pydict where
  "acme_first_node =
     [(''@type'', PStr ''Organization''), (''name'', PStr ''Acme''),
      (''address'', PDict [(''streetAddress'', PStr ''1 Main St'')]),
      (''numberOfEmployees'', PStr ''0'')]"

definition acme_second_node :: pydict where
  "acme_second_node =
     [(''@type'', PStr ''Corporation''), (''name'', PStr ''Acme Inc''),
      (''address'', PDict [(''addressLocality'', PStr ''Springfield'')]),
      (''numberOfEmployees'', PInt 250), (''industry'', PStr ''Rockets''),
      (''knowsAbout'', PList [PStr '' '', PStr []])]"

definition acme_nodes :: pyval where
  "acme_nodes = PList [PDict acme_first_node, PDict acme_second_node]"

definition acme_page :: soup where
  "acme_page =
     \<lparr>ld_scripts = [''acme-ld'', ''{broken''],
      title_string = Some ''Acme Inc | LinkedIn'',
      metas =
        [\<lparr>meta_name = Some ''description'', meta_property = None,
          meta_content = Some ''Acme builds rockets.''\<rparr>,
         \<lparr>meta_name = None, meta_property = Some ''og:title'',
          meta_content = Some ''Acme Inc''\<rparr>,
         \<lparr>meta_name = None, meta_property = Some ''og:image'',
          meta_content = Some ''https://cdn.example/acme.png''\<rparr>],
      body_text = ''Acme Inc 1,234+ followers 10,001+ employees''\<rparr>"

definition example_env :: env where
  "example_env =
     \<lparr>session_get = (\<lambda>url n. if url = acme_url then Response 200 ''acme''
                             else if url = odd_url then Response 200 ''odd''
                             else Response 503 []),
      random_uniform = (\<lambda>n. 1 / 4),
      BeautifulSoup = (\<lambda>html. if html = ''acme'' then Inr acme_page
                               else Inl (OtherException ''parser fault'')),
      json_loads = (\<lambda>txt. if txt = ''acme-ld'' then Inr acme_nodes
                            else Inl (JSONDecodeError ''Expecting value''))\<rparr>"

definition default_scraper :: scraper where
  "default_scraper =
     \<lparr>timeout = 15, max_retries = 3, backoff_factor = 3 / 2,
      user_agent = ''Mozilla/5.0 (Windows NT 10.0; Win64; x64) AppleWebKit/537.36 (KHTML, like Gecko) Chrome/120.0 Safari/537.36''\<rparr>"

definition fresh_world :: world where
  "fresh_world = \<lparr>requests_sent = 0, draws_made = 0, slept = []\<rparr>"

text \<open>A page with a social-preview title and nothing else: no title tag, no structured data.\<close>

definition untitled_page :: soup where
  "untitled_page =
     \<lparr>ld_scripts = [], title_string = None,
      metas = [\<lparr>meta_name = None, meta_property = Some ''og:title'',
                meta_content = Some ''Acme builds rockets''\<rparr>],
      body_text = []\<rparr>"

text \<open>A node whose address names its country by a nested object.\<close>

definition nested_country_node :: pydict where
  "nested_country_node =
     [(''@type'', PStr ''Organization''),
      (''address'', PDict [(''streetAddress'', PStr ''1 Main St''),
                           (''addressCountry'', PDict [(''@type'', PStr ''Country''),
                                                       (''name'', PStr ''United States'')])])]"

text \<open>
  An answer of the transport after which the fetcher sleeps and tries again: a status
  outside 200..299, or a \<^verbatim>\<open>RequestException\<close>.
\<close>

definition retryable :: "get_result \<Rightarrow> bool" where
  "retryable r =
     (case r of
        Response status_code text \<Rightarrow> \<not> (200 \<le> status_code \<and> status_code < 300)
      | Raises exc \<Rightarrow> is_request_exception exc)"

text \<open>
  A step that never leaves the empty string in a field other than \<^verbatim>\<open>company_specialties\<close>
  that did not hold it before.
\<close>

definition no_empty_text :: "(company \<Rightarrow> company) \<Rightarrow> bool" where
  "no_empty_text f =
     (\<forall>t k. k \<noteq> ''company_specialties'' \<longrightarrow> t k \<noteq> Some (PStr []) \<longrightarrow> f t k \<noteq> Some (PStr []))"

section \<open>Numeric coercion\<close>


















section \<open>The structured-data pass is a local step\<close>

lemma act_idem: "act w g (act w g x) = act w g x"
  by (auto simp: act_def split: option.splits)

lemma act_comp:
  "\<exists>w g. (w \<noteq> None \<longrightarrow> w1 \<noteq> None \<or> w2 \<noteq> None) \<and> (g1 \<and> g2 \<longrightarrow> g)
         \<and> (\<forall>x. act w2 g2 (act w1 g1 x) = act w g x)"
proof (cases w1)
  case None
  then show ?thesis by (intro exI[of _ w2] exI[of _ g2]) (simp add: act_def)
next
  case (Some v1)
  show ?thesis
  proof (cases w2)
    case None
    with Some show ?thesis by (intro exI[of _ w1] exI[of _ g1]) (simp add: act_def)
  next
    case w2: (Some v2)
    show ?thesis
    proof (cases g2)
      case True
      with Some w2 show ?thesis
        by (intro exI[of _ "Some (if truthy v1 then v1 else v2)"] exI[of _ g1])
           (auto simp: act_def split: option.splits)
    next
      case False
      with Some w2 show ?thesis
        by (intro exI[of _ "Some v2"] exI[of _ False]) (auto simp: act_def)
    qed
  qed
qed

lemma local_id: "local_step (\<lambda>t. t)"
  unfolding local_step_def
  by (intro allI exI[of _ None] exI[of _ True]) (simp add: act_def)

lemma local_stepD:
  assumes "local_step f"
  obtains w g where "w \<noteq> None \<longrightarrow> k \<in> set ld_fields" "k \<notin> set overwrite_fields \<longrightarrow> g"
    "\<And>t. f t k = act w g (t k)"
proof -
  from assms have "\<exists>w g. (w \<noteq> None \<longrightarrow> k \<in> set ld_fields) \<and> (k \<notin> set overwrite_fields \<longrightarrow> g)
              \<and> (\<forall>t. f t k = act w g (t k))"
    unfolding local_step_def by (rule spec)
  then show thesis using that by (elim exE conjE) simp
qed

lemma local_stepI:
  assumes "\<And>k. \<exists>w g. (w \<noteq> None \<longrightarrow> k \<in> set ld_fields) \<and> (k \<notin> set overwrite_fields \<longrightarrow> g)
              \<and> (\<forall>t. f t k = act w g (t k))"
  shows "local_step f"
  unfolding local_step_def using assms by (rule allI)

lemma local_comp:
  assumes f: "local_step f" and g: "local_step g"
  shows "local_step (g \<circ> f)"
proof (rule local_stepI)
  fix k
  from f obtain w1 g1 where 1: "w1 \<noteq> None \<longrightarrow> k \<in> set ld_fields"
    "k \<notin> set overwrite_fields \<longrightarrow> g1" "\<And>t. f t k = act w1 g1 (t k)"
    by (rule local_stepD[where k=k]) (rule that)
  from g obtain w2 g2 where 2: "w2 \<noteq> None \<longrightarrow> k \<in> set ld_fields"
    "k \<notin> set overwrite_fields \<longrightarrow> g2" "\<And>t. g t k = act w2 g2 (t k)"
    by (rule local_stepD[where k=k]) (rule that)
  from act_comp[of w1 w2 g1 g2] obtain w g' where 3:
    "w \<noteq> None \<longrightarrow> w1 \<noteq> None \<or> w2 \<noteq> None" "g1 \<and> g2 \<longrightarrow> g'"
    "\<And>x. act w2 g2 (act w1 g1 x) = act w g' x" by (elim exE conjE) simp
  have a: "w \<noteq> None \<longrightarrow> k \<in> set ld_fields" using 1(1) 2(1) 3(1) by blast
  have b: "k \<notin> set overwrite_fields \<longrightarrow> g'" using 1(2) 2(2) 3(2) by blast
  have c: "\<forall>t. (g \<circ> f) t k = act w g' (t k)" by (simp add: 1(3) 2(3) 3(3))
  from a b c show "\<exists>w g'. (w \<noteq> None \<longrightarrow> k \<in> set ld_fields) \<and> (k \<notin> set overwrite_fields \<longrightarrow> g')
              \<and> (\<forall>t. (g \<circ> f) t k = act w g' (t k))"
    by blast
qed

lemma local_write:
  assumes "key \<in> set overwrite_fields"
  shows "local_step (\<lambda>t. t(key \<mapsto> v))"
  unfolding local_step_def
proof
  fix k
  show "\<exists>w g. (w \<noteq> None \<longrightarrow> k \<in> set ld_fields) \<and> (k \<notin> set overwrite_fields \<longrightarrow> g)
              \<and> (\<forall>t. (t(key \<mapsto> v)) k = act w g (t k))"
  proof (cases "k = key")
    case True
    with assms show ?thesis
      by (intro exI[of _ "Some v"] exI[of _ False]) (auto simp: act_def ld_fields_def)
  next
    case False
    then show ?thesis by (intro exI[of _ None] exI[of _ True]) (simp add: act_def)
  qed
qed

lemma local_guarded:
  assumes "key \<in> set ld_fields"
  shows "local_step (\<lambda>t. if \<not> truthy (tget t key) then t(key \<mapsto> v) else t)"
  unfolding local_step_def
proof
  fix k
  show "\<exists>w g. (w \<noteq> None \<longrightarrow> k \<in> set ld_fields) \<and> (k \<notin> set overwrite_fields \<longrightarrow> g)
     \<and> (\<forall>t. (if \<not> truthy (tget t key) then t(key \<mapsto> v) else t) k = act w g (t k))"
  proof (cases "k = key")
    case True
    with assms show ?thesis
      by (intro exI[of _ "Some v"] exI[of _ True]) (auto simp: act_def tget_def)
  next
    case False
    then show ?thesis by (intro exI[of _ None] exI[of _ True]) (simp add: act_def)
  qed
qed

lemma local_ld_name: "local_step (ld_name node)"
proof (cases "truthy (clean_text (dict_get node ''name''))")
  case True
  then have "ld_name node = (\<lambda>t. t(''company_name'' \<mapsto> clean_text (dict_get node ''name'')))"
    by (intro ext) (simp add: ld_name_def)
  then show ?thesis by (simp add: local_write overwrite_fields_def)
next
  case False
  then have "ld_name node = (\<lambda>t. t)" by (intro ext) (simp add: ld_name_def)
  then show ?thesis by (simp add: local_id)
qed

lemma local_ld_url: "local_step (ld_url node)"
proof (cases "truthy (clean_text (dict_get node ''url''))")
  case True
  then have "ld_url node = (\<lambda>t. t(''company_website'' \<mapsto> clean_text (dict_get node ''url'')))"
    by (intro ext) (simp add: ld_url_def)
  then show ?thesis by (simp add: local_write overwrite_fields_def)
next
  case False
  then have "ld_url node = (\<lambda>t. t)" by (intro ext) (simp add: ld_url_def)
  then show ?thesis by (simp add: local_id)
qed

lemma local_ld_address: "local_step (ld_address node)"
proof (cases "\<exists>a. address_of node = PDict a")
  case True
  then obtain a where a: "address_of node = PDict a" by blast
  have "ld_address node =
      (\<lambda>t. t(''company_country'' \<mapsto> address_country a))
    \<circ> (\<lambda>t. t(''company_postal_code'' \<mapsto> clean_text (dict_get a ''postalCode'')))
    \<circ> (\<lambda>t. t(''company_region'' \<mapsto> clean_text (dict_get a ''addressRegion'')))
    \<circ> (\<lambda>t. t(''company_locality'' \<mapsto> clean_text (dict_get a ''addressLocality'')))
    \<circ> (\<lambda>t. t(''company_street'' \<mapsto> clean_text (dict_get a ''streetAddress'')))
    \<circ> (\<lambda>t. t(''company_address_type'' \<mapsto> clean_text (dict_get a ''@type'')))"
    by (intro ext) (simp add: ld_address_def a)
  then show ?thesis
    by (simp only:) (intro local_comp local_write; simp add: overwrite_fields_def)
next
  case False
  then have "ld_address node = (\<lambda>t. t)"
    by (intro ext) (auto simp: ld_address_def split: pyval.splits)
  then show ?thesis by (simp add: local_id)
qed


lemma in_ld_fields:
  "''company_about_us'' \<in> set ld_fields" "''company_employees_on_linkedin'' \<in> set ld_fields"
  "''company_logo'' \<in> set ld_fields" "''company_industry'' \<in> set ld_fields"
  "''company_founded'' \<in> set ld_fields" "''company_size'' \<in> set ld_fields"
  "''company_headquarters'' \<in> set ld_fields" "''company_specialties'' \<in> set ld_fields"
  by (simp_all add: ld_fields_def)

lemma local_ld_description: "local_step (ld_description node)"
proof (cases "truthy (clean_text (dict_get node ''description''))")
  case True
  then have "ld_description node =
      (\<lambda>t. if \<not> truthy (tget t ''company_about_us'')
           then t(''company_about_us'' \<mapsto> clean_text (dict_get node ''description'')) else t)"
    by (intro ext) (simp add: ld_description_def)
  then show ?thesis by (simp only: local_guarded in_ld_fields)
next
  case False
  then have "ld_description node = (\<lambda>t. t)" by (intro ext) (simp add: ld_description_def)
  then show ?thesis by (simp only: local_id)
qed

lemma local_ld_employees: "local_step (ld_employees node)"
proof (cases "truthy (py_or (dict_get node ''numberOfEmployees'') (dict_get node ''employees''))")
  case True
  then have "ld_employees node =
      (\<lambda>t. if \<not> truthy (tget t ''company_employees_on_linkedin'')
           then t(''company_employees_on_linkedin'' \<mapsto>
                    safe_int (py_or (dict_get node ''numberOfEmployees'') (dict_get node ''employees'')))
           else t)"
    by (intro ext) (simp add: ld_employees_def)
  then show ?thesis by (simp only: local_guarded in_ld_fields)
next
  case False
  then have "ld_employees node = (\<lambda>t. t)" by (intro ext) (simp add: ld_employees_def)
  then show ?thesis by (simp only: local_id)
qed

lemma local_ld_logo: "local_step (ld_logo node)"
proof -
  have "ld_logo node =
      (\<lambda>t. if \<not> truthy (tget t ''company_logo'')
           then t(''company_logo'' \<mapsto>
                    (case dict_get node ''logo'' of
                       PDict d \<Rightarrow> clean_text (dict_get d ''url'')
                     | _ \<Rightarrow> clean_text (dict_get node ''logo'')))
           else t)"
    by (intro ext) (simp add: ld_logo_def split: pyval.splits)
  then show ?thesis by (simp only: local_guarded in_ld_fields)
qed

lemma local_ld_industry: "local_step (ld_industry node)"
proof (cases "truthy (clean_text (dict_get node ''industry''))")
  case True
  then have "ld_industry node =
      (\<lambda>t. if \<not> truthy (tget t ''company_industry'')
           then t(''company_industry'' \<mapsto> clean_text (dict_get node ''industry'')) else t)"
    by (intro ext) (simp add: ld_industry_def)
  then show ?thesis by (simp only: local_guarded in_ld_fields)
next
  case False
  then have "ld_industry node = (\<lambda>t. t)" by (intro ext) (simp add: ld_industry_def)
  then show ?thesis by (simp only: local_id)
qed

lemma local_ld_founded: "local_step (ld_founded node)"
proof (cases "truthy (extract_year (safe_str
                  (py_or (dict_get node ''foundingDate'') (dict_get node ''foundingYear''))))")
  case True
  then have "ld_founded node =
      (\<lambda>t. if \<not> truthy (tget t ''company_founded'')
           then t(''company_founded'' \<mapsto> extract_year (safe_str
                  (py_or (dict_get node ''foundingDate'') (dict_get node ''foundingYear''))))
           else t)"
    by (intro ext) (simp add: ld_founded_def)
  then show ?thesis by (simp only: local_guarded in_ld_fields)
next
  case False
  then have "ld_founded node = (\<lambda>t. t)" by (intro ext) (simp add: ld_founded_def)
  then show ?thesis by (simp only: local_id)
qed

lemma local_ld_size: "local_step (ld_size node)"
proof (cases "truthy (py_or (dict_get node ''employeesRange'') (dict_get node ''employeeRange''))")
  case True
  then have "ld_size node =
      (\<lambda>t. if \<not> truthy (tget t ''company_size'')
           then t(''company_size'' \<mapsto> clean_text
                  (py_or (dict_get node ''employeesRange'') (dict_get node ''employeeRange'')))
           else t)"
    by (intro ext) (simp add: ld_size_def)
  then show ?thesis by (simp only: local_guarded in_ld_fields)
next
  case False
  then have "ld_size node = (\<lambda>t. t)" by (intro ext) (simp add: ld_size_def)
  then show ?thesis by (simp only: local_id)
qed

lemma local_ld_headquarters: "local_step (ld_headquarters node)"
proof -
  define hq where "hq = py_or (dict_get node ''foundingLocation'') (dict_get node ''location'')"
  consider d where "hq = PDict d" | s where "hq = PStr s"
    | "\<forall>d. hq \<noteq> PDict d" "\<forall>s. hq \<noteq> PStr s" by blast
  then show ?thesis
  proof cases
    case 1
    then have "ld_headquarters node =
      (\<lambda>t. if \<not> truthy (tget t ''company_headquarters'')
           then t(''company_headquarters'' \<mapsto>
                    clean_text (py_or (py_or (dict_get d ''name'') (dict_get d ''addressLocality''))
                                      (dict_get d ''addressRegion'')))
           else t)"
      by (intro ext) (simp add: ld_headquarters_def hq_def[symmetric])
    then show ?thesis by (simp only: local_guarded in_ld_fields)
  next
    case 2
    then have "ld_headquarters node =
      (\<lambda>t. if \<not> truthy (tget t ''company_headquarters'')
           then t(''company_headquarters'' \<mapsto> clean_text hq) else t)"
      by (intro ext) (simp add: ld_headquarters_def hq_def[symmetric])
    then show ?thesis by (simp only: local_guarded in_ld_fields)
  next
    case 3
    then have "ld_headquarters node = (\<lambda>t. t)"
      by (intro ext) (simp add: ld_headquarters_def hq_def[symmetric] split: pyval.splits)
    then show ?thesis by (simp only: local_id)
  qed
qed

lemma local_ld_specialties: "local_step (ld_specialties node)"
proof -
  consider xs where "specialties_of node = PList xs" | s where "specialties_of node = PStr s"
    | "\<forall>xs. specialties_of node \<noteq> PList xs" "\<forall>s. specialties_of node \<noteq> PStr s" by blast
  then show ?thesis
  proof cases
    case 1
    then have "ld_specialties node =
      (\<lambda>t. if \<not> truthy (tget t ''company_specialties'')
           then t(''company_specialties'' \<mapsto> PStr (join '', '' (cleaned_strings xs))) else t)"
      by (intro ext) (simp add: ld_specialties_def)
    then show ?thesis by (simp only: local_guarded in_ld_fields)
  next
    case 2
    then have "ld_specialties node =
      (\<lambda>t. if \<not> truthy (tget t ''company_specialties'')
           then t(''company_specialties'' \<mapsto> clean_text (specialties_of node)) else t)"
      by (intro ext) (simp add: ld_specialties_def)
    then show ?thesis by (simp only: local_guarded in_ld_fields)
  next
    case 3
    then have "ld_specialties node = (\<lambda>t. t)"
      by (intro ext) (simp add: ld_specialties_def Let_def split: pyval.splits)
    then show ?thesis by (simp only: local_id)
  qed
qed

lemma local_apply_json_ld: "local_step (apply_json_ld node)"
proof (cases "is_candidate node")
  case True
  then have "apply_json_ld node =
      ld_specialties node \<circ> ld_headquarters node \<circ> ld_size node \<circ> ld_founded node
      \<circ> ld_industry node \<circ> ld_logo node \<circ> ld_employees node \<circ> ld_description node
      \<circ> ld_address node \<circ> ld_url node \<circ> ld_name node"
    by (intro ext) (simp add: apply_json_ld_def)
  then show ?thesis
    by (simp only:)
       (intro local_comp local_ld_name local_ld_url local_ld_address local_ld_description
          local_ld_employees local_ld_logo local_ld_industry local_ld_founded local_ld_size
          local_ld_headquarters local_ld_specialties)
next
  case False
  then have "apply_json_ld node = (\<lambda>t. t)" by (intro ext) (simp add: apply_json_ld_def)
  then show ?thesis by (simp only: local_id)
qed

lemma local_apply_entry: "local_step (apply_entry entry)"
proof (cases entry)
  case (PDict node)
  then have "apply_entry entry = apply_json_ld node" by (intro ext) (simp add: apply_entry_def)
  then show ?thesis by (simp only: local_apply_json_ld)
qed (simp_all add: apply_entry_def[abs_def] local_id)

lemma local_fold_entries: "local_step (fold apply_entry entries)"
proof (induction entries)
  case Nil
  have "fold apply_entry [] = (\<lambda>t. t)" by (intro ext) simp
  then show ?case by (simp only: local_id)
next
  case (Cons e es)
  have "fold apply_entry (e # es) = fold apply_entry es \<circ> apply_entry e" by simp
  then show ?case by (simp only:) (intro local_comp local_apply_entry Cons.IH)
qed

lemma local_apply_parsed: "local_step (apply_parsed parsed)"
proof (cases parsed)
  case (PList entries)
  then have "apply_parsed parsed = fold apply_entry entries"
    by (intro ext) (simp add: apply_parsed_def)
  then show ?thesis by (simp only: local_fold_entries)
next
  case (PDict node)
  then have "apply_parsed parsed = apply_json_ld node" by (intro ext) (simp add: apply_parsed_def)
  then show ?thesis by (simp only: local_apply_json_ld)
qed (simp_all add: apply_parsed_def[abs_def] local_id)

text \<open>The whole pass either fails whatever the record is, or is a local step.\<close>

lemma parse_from_json_ld_local:
  "(\<exists>exc. \<forall>t. parse_from_json_ld E scripts t = Inl exc)
   \<or> (\<exists>F. local_step F \<and> (\<forall>t. parse_from_json_ld E scripts t = Inr (F t)))"
proof (induction scripts)
  case Nil
  have "local_step (\<lambda>t. t) \<and> (\<forall>t. parse_from_json_ld E [] t = Inr ((\<lambda>t. t) t))"
    by (simp add: local_id)
  then show ?case by blast
next
  case (Cons src scripts)
  consider "src = []" | exc where "src \<noteq> []" "json_loads E src = Inl exc" "is_json_decode_error exc"
    | exc where "src \<noteq> []" "json_loads E src = Inl exc" "\<not> is_json_decode_error exc"
    | parsed where "src \<noteq> []" "json_loads E src = Inr parsed"
    by (cases "json_loads E src") auto
  then show ?case
  proof cases
    case 1
    then have "\<And>t. parse_from_json_ld E (src # scripts) t = parse_from_json_ld E scripts t"
      by simp
    with Cons.IH show ?thesis by (simp only:)
  next
    case 2
    then have "\<And>t. parse_from_json_ld E (src # scripts) t = parse_from_json_ld E scripts t"
      by simp
    with Cons.IH show ?thesis by (simp only:)
  next
    case 3
    then have "\<forall>t. parse_from_json_ld E (src # scripts) t = Inl exc" by simp
    then show ?thesis by blast
  next
    case 4
    then have eq: "\<And>t. parse_from_json_ld E (src # scripts) t
                     = parse_from_json_ld E scripts (apply_parsed parsed t)"
      by simp
    from Cons.IH show ?thesis
    proof
      assume "\<exists>exc. \<forall>t. parse_from_json_ld E scripts t = Inl exc"
      then show ?thesis by (simp only: eq) blast
    next
      assume "\<exists>F. local_step F \<and> (\<forall>t. parse_from_json_ld E scripts t = Inr (F t))"
      then obtain F where F: "local_step F" "\<And>t. parse_from_json_ld E scripts t = Inr (F t)"
        by blast
      have "local_step (F \<circ> apply_parsed parsed)"
        by (intro local_comp local_apply_parsed F(1))
      moreover have "\<forall>t. parse_from_json_ld E (src # scripts) t = Inr ((F \<circ> apply_parsed parsed) t)"
        by (simp only: eq F(2) comp_apply) simp
      ultimately show ?thesis by blast
    qed
  qed
qed

lemma local_step_idem:
  assumes "local_step F"
  shows "F (F t) = F t"
proof (rule ext)
  fix k
  from assms obtain w g where 1: "w \<noteq> None \<longrightarrow> k \<in> set ld_fields"
     "k \<notin> set overwrite_fields \<longrightarrow> g" "\<And>t. F t k = act w g (t k)"
    by (rule local_stepD[where k=k]) (rule that)
  show "F (F t) k = F t k" by (simp add: 1(3) act_idem)
qed

lemma local_step_frame:
  assumes "local_step F" and "k \<notin> set ld_fields"
  shows "F t k = t k"
proof -
  from assms(1) obtain w g where 1: "w \<noteq> None \<longrightarrow> k \<in> set ld_fields"
     "k \<notin> set overwrite_fields \<longrightarrow> g" "\<And>t. F t k = act w g (t k)"
    by (rule local_stepD[where k=k]) (rule that)
  from 1(1) assms(2) have "w = None" by blast
  then show ?thesis by (simp add: 1(3) act_def)
qed

lemma local_step_guard:
  assumes "local_step F" and "k \<notin> set overwrite_fields" and "truthy (tget t k)"
  shows "F t k = t k"
proof -
  from assms(1) obtain w g where 1: "w \<noteq> None \<longrightarrow> k \<in> set ld_fields"
     "k \<notin> set overwrite_fields \<longrightarrow> g" "\<And>t. F t k = act w g (t k)"
    by (rule local_stepD[where k=k]) (rule that)
  from 1(2) assms(2) have g by blast
  with assms(3) show ?thesis by (simp add: 1(3) act_def tget_def split: option.splits)
qed

lemma local_step_bound:
  assumes "local_step F" and "t k \<noteq> None"
  shows "F t k \<noteq> None"
proof -
  from assms(1) obtain w g where 1: "w \<noteq> None \<longrightarrow> k \<in> set ld_fields"
     "k \<notin> set overwrite_fields \<longrightarrow> g" "\<And>t. F t k = act w g (t k)"
    by (rule local_stepD[where k=k]) (rule that)
  from assms(2) show ?thesis by (auto simp: 1(3) act_def split: option.splits)
qed

section \<open>The heuristic pass only fills fields\<close>

lemma fills_comp:
  assumes f: "fills f" and g: "fills g"
  shows "fills (g \<circ> f)"
  unfolding fills_def
proof (intro allI)
  fix t k
  from f have 1: "f t k = t k \<or> (\<not> truthy (tget t k) \<and> k \<in> set meta_fields \<and> f t k \<noteq> None)"
    unfolding fills_def by blast
  from g have 2: "g (f t) k = f t k
      \<or> (\<not> truthy (tget (f t) k) \<and> k \<in> set meta_fields \<and> g (f t) k \<noteq> None)"
    unfolding fills_def by blast
  have 3: "f t k = t k \<Longrightarrow> tget (f t) k = tget t k" by (simp add: tget_def)
  from 1 2 3 show "(g \<circ> f) t k = t k
      \<or> (\<not> truthy (tget t k) \<and> k \<in> set meta_fields \<and> (g \<circ> f) t k \<noteq> None)"
    by (cases "f t k = t k"; cases "g (f t) k = f t k"; simp)
qed

lemma fills_write:
  assumes "key \<in> set meta_fields"
  shows "fills (\<lambda>t. if c t \<and> \<not> truthy (tget t key) then t(key \<mapsto> v t) else t)"
  unfolding fills_def using assms by simp

lemma fills_meta_title: "fills (meta_title doc)"
  unfolding fills_def meta_title_def
  by (auto simp: meta_fields_def split: option.splits pyval.splits list.splits)

lemma fills_meta_description: "fills (meta_description doc)"
  unfolding fills_def meta_description_def
  by (simp add: meta_fields_def Let_def tget_def)

lemma fills_meta_logo: "fills (meta_logo doc)"
  unfolding fills_def meta_logo_def by (simp add: meta_fields_def Let_def)

lemma fills_meta_cover: "fills (meta_cover doc)"
  unfolding fills_def meta_cover_def by (simp add: meta_fields_def Let_def)

lemma fills_meta_slogan: "fills (meta_slogan doc)"
  unfolding fills_def meta_slogan_def by (simp add: meta_fields_def Let_def)

lemma fills_text_followers: "fills (text_followers text)"
  unfolding fills_def text_followers_def by (simp add: meta_fields_def Let_def)

lemma fills_text_employees: "fills (text_employees text)"
  unfolding fills_def text_employees_def by (simp add: meta_fields_def Let_def)

lemma fills_text_counters: "fills (text_counters doc)"
proof (cases "body_text doc = []")
  case True
  then have "text_counters doc = (\<lambda>t. t)" by (intro ext) (simp add: text_counters_def)
  then show ?thesis by (simp add: fills_def)
next
  case False
  then have "text_counters doc = text_employees (body_text doc) \<circ> text_followers (body_text doc)"
    by (intro ext) (simp add: text_counters_def)
  then show ?thesis by (simp only:) (intro fills_comp fills_text_followers fills_text_employees)
qed

lemma fills_parse_from_meta_and_title: "fills (parse_from_meta_and_title doc)"
proof -
  have "parse_from_meta_and_title doc =
      text_counters doc \<circ> meta_slogan doc \<circ> meta_cover doc \<circ> meta_logo doc
      \<circ> meta_description doc \<circ> meta_title doc"
    by (intro ext) (simp add: parse_from_meta_and_title_def)
  then show ?thesis
    by (simp only:)
       (intro fills_comp fills_meta_title fills_meta_description fills_meta_logo fills_meta_cover
          fills_meta_slogan fills_text_counters)
qed

lemma fills_keeps_truthy: "fills f \<Longrightarrow> truthy (tget t k) \<Longrightarrow> f t k = t k"
  unfolding fills_def by blast

lemma fills_frame: "fills f \<Longrightarrow> k \<notin> set meta_fields \<Longrightarrow> f t k = t k"
  unfolding fills_def by blast

lemma fills_bound: "fills f \<Longrightarrow> t k \<noteq> None \<Longrightarrow> f t k \<noteq> None"
  unfolding fills_def by metis

section \<open>The batch, one URL at a time\<close>

lemma scrape_loop_Cons:
  "scrape_loop E S (u # us) w =
     (fst (scrape_one E S u w) # fst (scrape_loop E S us (snd (scrape_one E S u w))),
      snd (scrape_loop E S us (snd (scrape_one E S u w))))"
  by (simp add: case_prod_beta)

lemma scrape_loop_length: "length (fst (scrape_loop E S urls w)) = length urls"
  by (induction urls arbitrary: w) (simp_all add: case_prod_beta)

lemma scrape_loop_nth:
  "i < length urls \<Longrightarrow>
   fst (scrape_loop E S urls w) ! i = fst (scrape_one E S (urls ! i) (world_before E S urls w i))"
proof (induction urls arbitrary: w i)
  case Nil
  then show ?case by simp
next
  case (Cons u us)
  show ?case
  proof (cases i)
    case 0
    then show ?thesis by (simp add: scrape_loop_Cons world_before_def del: scrape_loop.simps(2))
  next
    case (Suc j)
    with Cons.prems have "j < length us" by simp
    from Cons.IH[OF this] Suc show ?thesis
      by (simp add: scrape_loop_Cons world_before_def del: scrape_loop.simps(2))
  qed
qed

lemma scrape_profiles_loop: "scrape_profiles E S urls w = scrape_loop E S urls w"
  by (simp add: scrape_profiles_def)

lemma scrape_one_failure:
  "failure_of E S url w = Some exc \<Longrightarrow> fst (scrape_one E S url w) = skeleton url exc"
  by (auto simp: failure_of_def scrape_one_def split: prod.splits sum.splits)

lemma scrape_one_success:
  "failure_of E S url w = None \<Longrightarrow>
   \<exists>html. parse_company E html url = Inr (fst (scrape_one E S url w))"
  by (auto simp: failure_of_def scrape_one_def split: prod.splits sum.splits)

lemma fetch_attempts_exhausted:
  "\<forall>n. answer_fails (session_get E url n) \<Longrightarrow>
   \<exists>exc. fst (fetch_attempts E S url attempts last_exc w) = Inl exc"
proof (induction attempts arbitrary: last_exc w)
  case Nil
  then show ?case by (simp split: option.splits)
next
  case (Cons a attempts)
  from Cons.prems have "answer_fails (session_get E url (requests_sent w))" by blast
  with Cons.IH[OF Cons.prems] show ?case
    by (auto simp: answer_fails_def Let_def split: get_result.splits)
qed

lemma fetch_exhausted_fails:
  assumes "\<forall>n. answer_fails (session_get E url n)"
  shows "\<exists>exc. failure_of E S url w = Some exc"
proof -
  from fetch_attempts_exhausted[OF assms]
  obtain exc where "fst (fetch_company_page E S url w) = Inl exc"
    unfolding fetch_company_page_def by blast
  then show ?thesis by (auto simp: failure_of_def split: prod.splits)
qed

lemma parse_company_Inr:
  assumes "parse_company E html url = Inr c"
  obtains doc F where "BeautifulSoup E html = Inr doc" "local_step F"
    "c = parse_from_meta_and_title doc (F (new_record url))"
proof -
  from assms obtain doc data where d: "BeautifulSoup E html = Inr doc"
    "parse_from_json_ld E (ld_scripts doc) (new_record url) = Inr data"
    "c = parse_from_meta_and_title doc data"
    by (auto simp: parse_company_def split: sum.splits)
  from parse_from_json_ld_local[of E "ld_scripts doc"] d(2)
  obtain F where "local_step F" "\<And>t. parse_from_json_ld E (ld_scripts doc) t = Inr (F t)"
    by auto
  with d show thesis using that by auto
qed

lemma profile_not_written:
  "''company_profile'' \<notin> set ld_fields" "''company_profile'' \<notin> set meta_fields"
  by (simp_all add: ld_fields_def overwrite_fields_def meta_fields_def)

lemma parse_company_profile:
  assumes "parse_company E html url = Inr c"
  shows "c ''company_profile'' = Some (PStr url)"
proof -
  from assms obtain doc F where F: "local_step F"
    "c = parse_from_meta_and_title doc (F (new_record url))" by (rule parse_company_Inr)
  have "c ''company_profile'' = F (new_record url) ''company_profile''"
    unfolding F(2) using fills_parse_from_meta_and_title profile_not_written(2) by (rule fills_frame)
  also have "\<dots> = new_record url ''company_profile''"
    using F(1) profile_not_written(1) by (rule local_step_frame)
  finally show ?thesis by (simp add: new_record_def)
qed

lemma scrape_one_profile: "fst (scrape_one E S url w) ''company_profile'' = Some (PStr url)"
proof (cases "failure_of E S url w")
  case None
  then show ?thesis using scrape_one_success parse_company_profile by metis
next
  case (Some exc)
  then show ?thesis by (simp add: scrape_one_failure skeleton_def)
qed

lemma scrape_loop_profiles:
  "map (\<lambda>r. r ''company_profile'') (fst (scrape_loop E S urls w)) = map (\<lambda>u. Some (PStr u)) urls"
  by (induction urls arbitrary: w)
     (simp_all add: scrape_loop_Cons scrape_one_profile del: scrape_loop.simps(2))

lemma written_fields_known:
  "k \<in> set ld_fields \<Longrightarrow> k \<in> set company_fields"
  "k \<in> set meta_fields \<Longrightarrow> k \<in> set company_fields"
  by (auto simp: ld_fields_def overwrite_fields_def meta_fields_def company_fields_def)

lemma new_record_bound: "new_record url k \<noteq> None \<longleftrightarrow> k \<in> set company_fields"
  by (simp add: new_record_def company_fields_def)

lemma parse_company_keys:
  assumes "parse_company E html url = Inr c"
  shows "c k \<noteq> None \<longleftrightarrow> k \<in> set company_fields"
proof -
  from assms obtain doc F where F: "local_step F"
    "c = parse_from_meta_and_title doc (F (new_record url))" by (rule parse_company_Inr)
  show ?thesis
  proof (cases "k \<in> set company_fields")
    case True
    then have "new_record url k \<noteq> None" using new_record_bound by blast
    with F(1) have "F (new_record url) k \<noteq> None" by (rule local_step_bound)
    with fills_parse_from_meta_and_title have "c k \<noteq> None" unfolding F(2) by (rule fills_bound)
    with True show ?thesis by simp
  next
    case False
    then have 1: "k \<notin> set ld_fields" "k \<notin> set meta_fields" using written_fields_known by blast+
    have "c k = F (new_record url) k"
      unfolding F(2) using fills_parse_from_meta_and_title 1(2) by (rule fills_frame)
    also have "\<dots> = new_record url k" using F(1) 1(1) by (rule local_step_frame)
    finally show ?thesis using False new_record_bound by metis
  qed
qed

lemma skeleton_keys:
  "skeleton url exc k \<noteq> None \<longleftrightarrow> k \<in> {''company_name'', ''company_profile'', ''error''}"
  by (simp add: skeleton_def)

section \<open>Failure isolation\<close>

text \<open>
  C1. When the fetch of the URL at position \<open>i\<close> raises (after the retries are exhausted,
  or with an exception the fetcher does not catch) or its parse faults, the record at
  position \<open>i\<close> of the result is the skeleton: \<^verbatim>\<open>company_name\<close> bound to \<^verbatim>\<open>None\<close>,
  \<^verbatim>\<open>company_profile\<close> bound to that URL, \<^verbatim>\<open>error\<close> bound to the string of the exception.
  \<^const>\<open>scrape_profiles\<close> returns a list, with one record per URL, each the record
  \<^const>\<open>scrape_one\<close> makes for its URL: no exception leaves the batch and the URLs after
  a failed one are processed. A transport that fails every attempt for the URL makes
  the fetch raise in every world.
\<close>

theorem failed_url_gets_skeleton:
  assumes "i < length urls"
    and "failure_of E S (urls ! i) (world_before E S urls w i) = Some exc"
  shows "length (fst (scrape_profiles E S urls w)) = length urls
    \<and> fst (scrape_profiles E S urls w) ! i = skeleton (urls ! i) exc
    \<and> (fst (scrape_profiles E S urls w) ! i) ''company_name'' = Some PNone
    \<and> (fst (scrape_profiles E S urls w) ! i) ''company_profile'' = Some (PStr (urls ! i))
    \<and> (fst (scrape_profiles E S urls w) ! i) ''error'' = Some (PStr (exn_str exc))
    \<and> (\<forall>j < length urls. fst (scrape_profiles E S urls w) ! j
           = fst (scrape_one E S (urls ! j) (world_before E S urls w j)))
    \<and> ((\<forall>n. answer_fails (session_get E (urls ! i) n))
         \<longrightarrow> (\<forall>w'. \<exists>exc'. failure_of E S (urls ! i) w' = Some exc'))"
proof -
  have nth: "\<forall>j < length urls. fst (scrape_profiles E S urls w) ! j
           = fst (scrape_one E S (urls ! j) (world_before E S urls w j))"
    by (simp add: scrape_profiles_loop scrape_loop_nth)
  with assms have sk: "fst (scrape_profiles E S urls w) ! i = skeleton (urls ! i) exc"
    by (simp add: scrape_one_failure)
  have len: "length (fst (scrape_profiles E S urls w)) = length urls"
    by (simp add: scrape_profiles_loop scrape_loop_length)
  have ex: "(\<forall>n. answer_fails (session_get E (urls ! i) n))
         \<longrightarrow> (\<forall>w'. \<exists>exc'. failure_of E S (urls ! i) w' = Some exc')"
    using fetch_exhausted_fails by blast
  have "skeleton (urls ! i) exc ''company_name'' = Some PNone"
    "skeleton (urls ! i) exc ''company_profile'' = Some (PStr (urls ! i))"
    "skeleton (urls ! i) exc ''error'' = Some (PStr (exn_str exc))"
    by (simp_all add: skeleton_def)
  with nth sk len ex show ?thesis by (simp only:)
qed

theorem failed_url_gets_skeleton_witness:
  "map (\<lambda>r. r ''error'')
       (fst (scrape_profiles example_env default_scraper [acme_url, gone_url, odd_url] fresh_world))
     = [None, Some (PStr ''Failed to fetch https://www.linkedin.com/company/gone''),
        Some (PStr ''parser fault'')]
   \<and> fst (scrape_profiles example_env default_scraper [acme_url, gone_url, odd_url] fresh_world) ! 1
       = skeleton gone_url (RuntimeError ''Failed to fetch https://www.linkedin.com/company/gone'')
   \<and> fst (scrape_profiles example_env default_scraper [acme_url, gone_url, odd_url] fresh_world) ! 2
       = skeleton odd_url (OtherException ''parser fault'')"
proof -
  let ?urls = "[acme_url, gone_url, odd_url]"
  have l1: "1 < length ?urls" and l2: "2 < length ?urls" by simp_all
  have f1: "failure_of example_env default_scraper (?urls ! 1)
              (world_before example_env default_scraper ?urls fresh_world 1)
            = Some (RuntimeError ''Failed to fetch https://www.linkedin.com/company/gone'')"
    by code_simp
  have f2: "failure_of example_env default_scraper (?urls ! 2)
              (world_before example_env default_scraper ?urls fresh_world 2)
            = Some (OtherException ''parser fault'')"
    by code_simp
  have e: "map (\<lambda>r. r ''error'')
       (fst (scrape_profiles example_env default_scraper ?urls fresh_world))
     = [None, Some (PStr ''Failed to fetch https://www.linkedin.com/company/gone''),
        Some (PStr ''parser fault'')]"
    by code_simp
  from failed_url_gets_skeleton[OF l1 f1] failed_url_gets_skeleton[OF l2 f2] e
  show ?thesis by simp
qed

section \<open>One record per URL, carrying the URL\<close>

text \<open>
  C2. For every list of URLs, the empty one included, \<^const>\<open>scrape_profiles\<close> returns as
  many records as there are URLs, and the record at each position has \<^verbatim>\<open>company_profile\<close>
  bound to the URL at that position, whether the URL succeeded or failed.
\<close>

theorem profiles_match_urls:
  "length (fst (scrape_profiles E S urls w)) = length urls
   \<and> map (\<lambda>r. r ''company_profile'') (fst (scrape_profiles E S urls w))
       = map (\<lambda>u. Some (PStr u)) urls
   \<and> (\<forall>i < length urls.
         (fst (scrape_profiles E S urls w) ! i) ''company_profile'' = Some (PStr (urls ! i)))
   \<and> scrape_profiles E S [] w = ([], w)"
proof -
  have m: "map (\<lambda>r. r ''company_profile'') (fst (scrape_profiles E S urls w))
       = map (\<lambda>u. Some (PStr u)) urls"
    by (simp add: scrape_profiles_loop scrape_loop_profiles)
  have len: "length (fst (scrape_profiles E S urls w)) = length urls"
    by (simp add: scrape_profiles_loop scrape_loop_length)
  have "\<forall>i < length urls.
         (fst (scrape_profiles E S urls w) ! i) ''company_profile'' = Some (PStr (urls ! i))"
  proof (intro allI impI)
    fix i assume i: "i < length urls"
    then have "map (\<lambda>r. r ''company_profile'') (fst (scrape_profiles E S urls w)) ! i
        = (fst (scrape_profiles E S urls w) ! i) ''company_profile''"
      using len by simp
    with m i show "(fst (scrape_profiles E S urls w) ! i) ''company_profile'' = Some (PStr (urls ! i))"
      by simp
  qed
  with m len show ?thesis by (simp add: scrape_profiles_def)
qed

theorem profiles_match_urls_witness:
  "map (\<lambda>r. r ''company_profile'')
       (fst (scrape_profiles example_env default_scraper [acme_url, gone_url, odd_url] fresh_world))
     = [Some (PStr acme_url), Some (PStr gone_url), Some (PStr odd_url)]
   \<and> map (\<lambda>r. r ''company_name'')
       (fst (scrape_profiles example_env default_scraper [acme_url, gone_url, odd_url] fresh_world))
     = [Some (PStr ''Acme Inc''), Some PNone, Some PNone]"
proof -
  have n: "map (\<lambda>r. r ''company_name'')
       (fst (scrape_profiles example_env default_scraper [acme_url, gone_url, odd_url] fresh_world))
     = [Some (PStr ''Acme Inc''), Some PNone, Some PNone]"
    by code_simp
  from profiles_match_urls[of example_env default_scraper "[acme_url, gone_url, odd_url]" fresh_world]
    n show ?thesis by simp
qed

section \<open>The keys of a record\<close>

text \<open>
  C3, as stated: every record of a batch, the skeleton of a failed URL included, contains
  all the fixed field names. The skeleton of the URL that is answered 503 has no
  \<^verbatim>\<open>company_website\<close> key (nor any other field than its three).
\<close>

theorem skeleton_lacks_fields:
  "''company_website'' \<in> set company_fields
   \<and> (fst (scrape_profiles example_env default_scraper [gone_url] fresh_world) ! 0)
        ''company_website'' = None
   \<and> (fst (scrape_profiles example_env default_scraper [gone_url] fresh_world) ! 0)
        ''error'' = Some (PStr ''Failed to fetch https://www.linkedin.com/company/gone'')"
  by code_simp

text \<open>
  C3, amended: the record of a URL that was fetched and parsed without an exception has
  exactly the 22 fixed field names as its keys (each possibly bound to \<^verbatim>\<open>None\<close>); the
  skeleton of a failed URL has exactly the keys \<^verbatim>\<open>company_name\<close>, \<^verbatim>\<open>company_profile\<close> and
  \<^verbatim>\<open>error\<close>.
\<close>

theorem record_keys_by_outcome:
  assumes "i < length urls"
  shows "(failure_of E S (urls ! i) (world_before E S urls w i) = None
            \<longrightarrow> dom (fst (scrape_profiles E S urls w) ! i) = set company_fields)
       \<and> (failure_of E S (urls ! i) (world_before E S urls w i) \<noteq> None
            \<longrightarrow> dom (fst (scrape_profiles E S urls w) ! i)
                  = {''company_name'', ''company_profile'', ''error''})"
proof -
  let ?w = "world_before E S urls w i"
  have nth: "fst (scrape_profiles E S urls w) ! i = fst (scrape_one E S (urls ! i) ?w)"
    using assms by (simp add: scrape_profiles_loop scrape_loop_nth)
  have ok: "dom (fst (scrape_one E S (urls ! i) ?w)) = set company_fields"
    if "failure_of E S (urls ! i) ?w = None"
  proof -
    from scrape_one_success[OF that] obtain html
      where "parse_company E html (urls ! i) = Inr (fst (scrape_one E S (urls ! i) ?w))" by blast
    then have keys: "\<And>k. fst (scrape_one E S (urls ! i) ?w) k \<noteq> None \<longleftrightarrow> k \<in> set company_fields"
      by (rule parse_company_keys)
    show ?thesis
    proof (rule set_eqI)
      fix k
      show "k \<in> dom (fst (scrape_one E S (urls ! i) ?w)) \<longleftrightarrow> k \<in> set company_fields"
        using keys[of k] by (simp only: domIff)
    qed
  qed
  have bad: "dom (fst (scrape_one E S (urls ! i) ?w)) = {''company_name'', ''company_profile'', ''error''}"
    if "failure_of E S (urls ! i) ?w \<noteq> None"
  proof -
    from that obtain exc where "failure_of E S (urls ! i) ?w = Some exc" by blast
    then have sk: "fst (scrape_one E S (urls ! i) ?w) = skeleton (urls ! i) exc"
      by (rule scrape_one_failure)
    show ?thesis
    proof (rule set_eqI)
      fix k
      show "k \<in> dom (fst (scrape_one E S (urls ! i) ?w))
            \<longleftrightarrow> k \<in> {''company_name'', ''company_profile'', ''error''}"
        using skeleton_keys[of "urls ! i" exc k] by (simp only: sk domIff)
    qed
  qed
  from ok bad show ?thesis by (simp only: nth) blast
qed

theorem record_keys_by_outcome_witness:
  "dom (fst (scrape_profiles example_env default_scraper [acme_url, gone_url] fresh_world) ! 0)
     = set company_fields
   \<and> dom (fst (scrape_profiles example_env default_scraper [acme_url, gone_url] fresh_world) ! 1)
     = {''company_name'', ''company_profile'', ''error''}"
proof -
  let ?urls = "[acme_url, gone_url]"
  have l0: "0 < length ?urls" and l1: "1 < length ?urls" by simp_all
  have f0: "failure_of example_env default_scraper (?urls ! 0)
              (world_before example_env default_scraper ?urls fresh_world 0) = None"
    by code_simp
  have f1: "failure_of example_env default_scraper (?urls ! 1)
              (world_before example_env default_scraper ?urls fresh_world 1) \<noteq> None"
    by code_simp
  have a: "dom (fst (scrape_profiles example_env default_scraper ?urls fresh_world) ! 0)
     = set company_fields"
    using record_keys_by_outcome[OF l0, of example_env default_scraper fresh_world,
            THEN conjunct1, THEN mp, OF f0] .
  have b: "dom (fst (scrape_profiles example_env default_scraper ?urls fresh_world) ! 1)
     = {''company_name'', ''company_profile'', ''error''}"
    using record_keys_by_outcome[OF l1, of example_env default_scraper fresh_world,
            THEN conjunct2, THEN mp, OF f1] .
  from a b show ?thesis by (rule conjI)
qed

section \<open>Running the structured-data extractor twice\<close>

text \<open>
  C6. For every list of script blocks and every record, if the structured-data extractor
  returns a record, then running it again over the same blocks and that record returns
  the same record: no field changes, \<^verbatim>\<open>company_name\<close> and \<^verbatim>\<open>company_website\<close> included
  (the last matching node that carries them writes the same values again).
\<close>

theorem structured_data_idempotent:
  assumes "parse_from_json_ld E scripts target = Inr once"
  shows "parse_from_json_ld E scripts once = Inr once"
proof -
  from parse_from_json_ld_local[of E scripts] assms
  obtain F where F: "local_step F" "\<And>t. parse_from_json_ld E scripts t = Inr (F t)"
    by auto
  from assms F(2) have "once = F target" by simp
  with F show ?thesis by (simp add: local_step_idem)
qed

theorem structured_data_idempotent_witness:
  "parse_from_json_ld example_env (ld_scripts acme_page) (new_record acme_url)
     = Inr (apply_parsed acme_nodes (new_record acme_url))
   \<and> parse_from_json_ld example_env (ld_scripts acme_page)
        (apply_parsed acme_nodes (new_record acme_url))
     = Inr (apply_parsed acme_nodes (new_record acme_url))
   \<and> apply_parsed acme_nodes (new_record acme_url) ''company_name'' = Some (PStr ''Acme Inc'')"
proof -
  have 1: "parse_from_json_ld example_env (ld_scripts acme_page) (new_record acme_url)
     = Inr (apply_parsed acme_nodes (new_record acme_url))"
    by (simp add: example_env_def acme_page_def)
  have 2: "apply_parsed acme_nodes (new_record acme_url) ''company_name'' = Some (PStr ''Acme Inc'')"
    by code_simp
  from structured_data_idempotent[OF 1] 1 2 show ?thesis by simp
qed

section \<open>Which fields an extractor pass may change\<close>

text \<open>
  C4, as stated: no field that is set, other than \<^verbatim>\<open>company_name\<close> and
  \<^verbatim>\<open>company_website\<close>, is replaced or cleared by a later node. The second node of the
  example page has an address without a street, and clears the street the first node
  set; it also replaces the employee count 0 that the first node set.
\<close>

theorem later_node_rewrites_set_fields:
  "''company_street'' \<notin> {''company_name'', ''company_website''}
   \<and> apply_json_ld acme_first_node (new_record acme_url) ''company_street''
       = Some (PStr ''1 Main St'')
   \<and> apply_json_ld acme_second_node (apply_json_ld acme_first_node (new_record acme_url))
        ''company_street'' = Some PNone
   \<and> apply_json_ld acme_first_node (new_record acme_url) ''company_employees_on_linkedin''
       = Some (PInt 0)
   \<and> apply_json_ld acme_second_node (apply_json_ld acme_first_node (new_record acme_url))
        ''company_employees_on_linkedin'' = Some (PInt 250)"
  by code_simp

text \<open>
  C4, amended: a field that holds a truthy value (not \<^verbatim>\<open>None\<close>, not the empty string,
  not zero) is left as it is by \<^verbatim>\<open>_apply_json_ld\<close> on any node and by the whole
  structured-data pass, unless it is \<^verbatim>\<open>company_name\<close>, \<^verbatim>\<open>company_website\<close> or one of the
  six address fields; and by the heuristic pass, whichever field it is. A field that
  is not among those the structured-data extractor maps is never changed by it.
\<close>

theorem extractors_keep_truthy_fields:
  assumes "truthy (tget target k)"
  shows "(k \<notin> set overwrite_fields \<longrightarrow> apply_json_ld node target k = target k)
       \<and> (k \<notin> set overwrite_fields \<longrightarrow> parse_from_json_ld E scripts target = Inr target'
            \<longrightarrow> target' k = target k)
       \<and> parse_from_meta_and_title doc target k = target k
       \<and> (k \<notin> set ld_fields \<longrightarrow> apply_json_ld node target k = target k)"
proof -
  have a: "apply_json_ld node target k = target k" if "k \<notin> set overwrite_fields"
    using local_apply_json_ld that assms by (rule local_step_guard)
  have b: "target' k = target k"
    if "k \<notin> set overwrite_fields" "parse_from_json_ld E scripts target = Inr target'"
  proof -
    from parse_from_json_ld_local[of E scripts] that(2)
    obtain F where F: "local_step F" "\<And>t. parse_from_json_ld E scripts t = Inr (F t)"
      by auto
    from that(2) F(2) have "target' = F target" by simp
    moreover from F(1) that(1) assms have "F target k = target k" by (rule local_step_guard)
    ultimately show ?thesis by simp
  qed
  have c: "parse_from_meta_and_title doc target k = target k"
    using fills_parse_from_meta_and_title assms by (rule fills_keeps_truthy)
  have d: "apply_json_ld node target k = target k" if "k \<notin> set ld_fields"
    using local_apply_json_ld that by (rule local_step_frame)
  from a b c d show ?thesis by blast
qed

theorem extractors_keep_truthy_fields_witness:
  "truthy (tget (apply_parsed acme_nodes (new_record acme_url)) ''company_industry'')
   \<and> ''company_industry'' \<notin> set overwrite_fields
   \<and> apply_json_ld [(''@type'', PStr ''Organization''), (''industry'', PStr ''Toys'')]
        (apply_parsed acme_nodes (new_record acme_url)) ''company_industry''
       = Some (PStr ''Rockets'')
   \<and> parse_from_meta_and_title acme_page (apply_parsed acme_nodes (new_record acme_url))
        ''company_industry'' = Some (PStr ''Rockets'')"
proof -
  let ?t = "apply_parsed acme_nodes (new_record acme_url)"
  have h: "truthy (tget ?t ''company_industry'')" by code_simp
  have n: "''company_industry'' \<notin> set overwrite_fields" by code_simp
  have v: "?t ''company_industry'' = Some (PStr ''Rockets'')" by code_simp
  from extractors_keep_truthy_fields[OF h, of "[(''@type'', PStr ''Organization''), (''industry'', PStr ''Toys'')]" example_env "[]" ?t acme_page]
    h n v show ?thesis by simp
qed

section \<open>The sleeps of an exhausted fetch\<close>

text \<open>
  With three attempts that all fail, the fetcher sleeps three times, after each attempt,
  the last one included: the back-off terms are the factor times 1, 2 and 4.
\<close>

lemma one_to_three: "[1 .. 3] = [1, 2, 3 :: int]"
  by code_simp

lemma failed_attempt:
  assumes "retryable (session_get E url (requests_sent w))"
  shows "\<exists>last'. fetch_attempts E S url (attempt # rest) last_exc w
     = fetch_attempts E S url rest last'
         (backoff_sleep E S attempt (w\<lparr>requests_sent := requests_sent w + 1\<rparr>))"
  using assms by (auto simp: retryable_def Let_def split: get_result.splits)

lemma fetch_attempts_nil_world: "snd (fetch_attempts E S url [] last_exc w) = w"
  by (simp split: option.splits)

lemma three_failures_three_sleeps:
  assumes m: "max_retries S = 3" and r: "\<forall>n. retryable (session_get E url n)"
  shows "slept (snd (fetch_company_page E S url w)) =
     slept w @ [backoff_factor S * 1 + random_uniform E (draws_made w),
                backoff_factor S * 2 + random_uniform E (draws_made w + 1),
                backoff_factor S * 4 + random_uniform E (draws_made w + 2)]"
proof -
  let ?w1 = "backoff_sleep E S 1 (w\<lparr>requests_sent := requests_sent w + 1\<rparr>)"
  let ?w2 = "backoff_sleep E S 2 (?w1\<lparr>requests_sent := requests_sent ?w1 + 1\<rparr>)"
  let ?w3 = "backoff_sleep E S 3 (?w2\<lparr>requests_sent := requests_sent ?w2 + 1\<rparr>)"
  from r have r0: "retryable (session_get E url (requests_sent w))"
    and r1: "retryable (session_get E url (requests_sent ?w1))"
    and r2: "retryable (session_get E url (requests_sent ?w2))" by blast+
  from failed_attempt[OF r0] obtain l1 where
    1: "fetch_attempts E S url [1, 2, 3] None w = fetch_attempts E S url [2, 3] l1 ?w1" by blast
  from failed_attempt[OF r1] obtain l2 where
    2: "fetch_attempts E S url [2, 3] l1 ?w1 = fetch_attempts E S url [3] l2 ?w2" by blast
  from failed_attempt[OF r2] obtain l3 where
    3: "fetch_attempts E S url [3] l2 ?w2 = fetch_attempts E S url [] l3 ?w3" by blast
  have "snd (fetch_company_page E S url w) = ?w3"
    unfolding fetch_company_page_def m one_to_three 1 2 3 by (rule fetch_attempts_nil_world)
  then show ?thesis by (simp add: backoff_sleep_def Let_def)
qed

text \<open>
  C5. With \<^verbatim>\<open>max_retries = 3\<close> and \<^verbatim>\<open>backoff_factor = 1.5\<close>, the fetch of a URL that is answered
  503 at every attempt sleeps 1.5, 3 and 6 seconds (each plus the jitter, here 0.25)
  before it raises: 10.5 seconds without the jitter, where the claim has 4.5. The third
  sleep follows the last attempt and precedes no retry.
\<close>

theorem exhausted_fetch_sleeps_three_times:
  "fetch_company_page example_env default_scraper gone_url fresh_world
     = (Inl (RuntimeError ''Failed to fetch https://www.linkedin.com/company/gone''),
        \<lparr>requests_sent = 3, draws_made = 3,
         slept = [3 / 2 + 1 / 4, 3 + 1 / 4, 6 + 1 / 4]\<rparr>)
   \<and> sum_list (map (\<lambda>s. s - 1 / 4)
         (slept (snd (fetch_company_page example_env default_scraper gone_url fresh_world))))
       = 21 / 2"
  by code_simp

section \<open>The country of an address\<close>

lemma nested_country_lost:
  "dict_get address ''addressCountry'' = PDict c \<Longrightarrow> address_country address = PNone"
  by (simp add: address_country_def getattr_name_def clean_text_def)

text \<open>
  C7. For a node whose address gives the country as a nested object with a \<^verbatim>\<open>name\<close>, the
  extractor takes the street from the address but leaves \<^verbatim>\<open>company_country\<close> bound to
  \<^verbatim>\<open>None\<close>: the nested object is read with \<^verbatim>\<open>getattr\<close>, and a dictionary has no attribute
  \<^verbatim>\<open>name\<close>. A country given as a string is taken.
\<close>

theorem nested_country_is_dropped:
  "apply_json_ld nested_country_node (new_record acme_url) ''company_street''
     = Some (PStr ''1 Main St'')
   \<and> apply_json_ld nested_country_node (new_record acme_url) ''company_country'' = Some PNone
   \<and> address_country [(''addressCountry'', PStr ''United States'')] = PStr ''United States''"
  by code_simp

section \<open>The slogan\<close>

lemma slogan_untouched:
  "meta_title doc t ''company_slogan'' = t ''company_slogan''"
  "meta_description doc t ''company_slogan'' = t ''company_slogan''"
  "meta_logo doc t ''company_slogan'' = t ''company_slogan''"
  "meta_cover doc t ''company_slogan'' = t ''company_slogan''"
  "text_counters doc t ''company_slogan'' = t ''company_slogan''"
  by (simp_all add: meta_title_def meta_description_def meta_logo_def meta_cover_def
        text_counters_def text_followers_def text_employees_def Let_def
        split: option.splits pyval.splits list.splits)

lemma name_untouched:
  "meta_description doc t ''company_name'' = t ''company_name''"
  "meta_logo doc t ''company_name'' = t ''company_name''"
  "meta_cover doc t ''company_name'' = t ''company_name''"
  "meta_slogan doc t ''company_name'' = t ''company_name''"
  "text_counters doc t ''company_name'' = t ''company_name''"
  by (simp_all add: meta_slogan_def meta_description_def meta_logo_def meta_cover_def
        text_counters_def text_followers_def text_employees_def Let_def)

lemma tget_cong: "t k = t' k \<Longrightarrow> tget t k = tget t' k"
  by (simp add: tget_def)

lemma clean_text_None: "clean_text PNone = PNone"
  by (simp add: clean_text_def)

lemma meta_slogan_result:
  assumes "\<not> truthy (tget t ''company_slogan'')"
  shows "meta_slogan doc t ''company_slogan'' =
     (let headline = clean_text (find_meta_content (metas doc) [''og:title'', ''twitter:title''])
      in if truthy headline \<and> truthy (tget t ''company_name'')
            \<and> headline \<noteq> tget t ''company_name''
         then Some headline else t ''company_slogan'')"
proof (cases "truthy (find_meta_content (metas doc) [''og:title'', ''twitter:title''])")
  case True
  with assms show ?thesis by (simp add: meta_slogan_def Let_def)
next
  case False
  have "find_meta_content (metas doc) [''og:title'', ''twitter:title''] = PNone
      \<or> (\<exists>c. find_meta_content (metas doc) [''og:title'', ''twitter:title''] = PStr c)"
    by (auto simp: Let_def split: option.splits)
  with False have "clean_text (find_meta_content (metas doc) [''og:title'', ''twitter:title'']) = PNone"
    by (auto simp: clean_text_def strip_def lstrip_def rstrip_def)
  with assms False show ?thesis by (simp add: meta_slogan_def Let_def)
qed

text \<open>
  C9, as stated: with \<^verbatim>\<open>company_slogan\<close> absent, the slogan is set to the social-preview
  title exactly when that content differs from the resolved \<^verbatim>\<open>company_name\<close>. On a page
  with a social-preview title but neither a title tag nor structured data, the name
  stays absent, the content differs from it, and the slogan is not set.
\<close>

theorem differing_headline_without_name:
  "new_record acme_url ''company_slogan'' = Some PNone
   \<and> clean_text (find_meta_content (metas untitled_page) [''og:title'', ''twitter:title''])
       = PStr ''Acme builds rockets''
   \<and> tget (parse_from_meta_and_title untitled_page (new_record acme_url)) ''company_name'' = PNone
   \<and> PStr ''Acme builds rockets''
       \<noteq> tget (parse_from_meta_and_title untitled_page (new_record acme_url)) ''company_name''
   \<and> parse_from_meta_and_title untitled_page (new_record acme_url) ''company_slogan'' = Some PNone"
  by code_simp

text \<open>
  C9, amended: when \<^verbatim>\<open>company_slogan\<close> holds no truthy value before the heuristic pass, the
  pass binds it to the normalized content of the first non-empty \<^verbatim>\<open>og:title\<close> or
  \<^verbatim>\<open>twitter:title\<close> tag exactly when that normalized content is non-empty, the
  \<^verbatim>\<open>company_name\<close> the pass ends with is non-empty, and the two differ; otherwise the
  field is left as it was.
\<close>

theorem slogan_needs_resolved_name:
  assumes "\<not> truthy (tget target ''company_slogan'')"
  shows "parse_from_meta_and_title doc target ''company_slogan'' =
     (let headline = clean_text (find_meta_content (metas doc) [''og:title'', ''twitter:title'']);
          name = tget (parse_from_meta_and_title doc target) ''company_name''
      in if truthy headline \<and> truthy name \<and> headline \<noteq> name
         then Some headline else target ''company_slogan'')"
proof -
  let ?t4 = "meta_cover doc (meta_logo doc (meta_description doc (meta_title doc target)))"
  have s4: "?t4 ''company_slogan'' = target ''company_slogan''"
    by (simp only: slogan_untouched)
  then have "tget ?t4 ''company_slogan'' = tget target ''company_slogan''" by (rule tget_cong)
  with assms have g: "\<not> truthy (tget ?t4 ''company_slogan'')" by simp
  have "parse_from_meta_and_title doc target ''company_name'' = ?t4 ''company_name''"
    by (simp only: parse_from_meta_and_title_def name_untouched)
  then have n: "tget (parse_from_meta_and_title doc target) ''company_name'' = tget ?t4 ''company_name''"
    by (rule tget_cong)
  have A: "parse_from_meta_and_title doc target ''company_slogan'' = meta_slogan doc ?t4 ''company_slogan''"
    by (simp only: parse_from_meta_and_title_def slogan_untouched)
  note B = meta_slogan_result[OF g]
  show ?thesis by (simp only: A B n s4 Let_def)
qed

theorem slogan_needs_resolved_name_witness:
  "\<not> truthy (tget (apply_json_ld acme_first_node (new_record acme_url)) ''company_slogan'')
   \<and> parse_from_meta_and_title acme_page (apply_json_ld acme_first_node (new_record acme_url))
        ''company_slogan'' = Some (PStr ''Acme Inc'')
   \<and> parse_from_meta_and_title acme_page (apply_parsed acme_nodes (new_record acme_url))
        ''company_slogan'' = Some PNone"
proof -
  let ?t1 = "apply_json_ld acme_first_node (new_record acme_url)"
  let ?t2 = "apply_parsed acme_nodes (new_record acme_url)"
  have h1: "\<not> truthy (tget ?t1 ''company_slogan'')" by code_simp
  have h2: "\<not> truthy (tget ?t2 ''company_slogan'')" by code_simp
  have e1: "(let headline = clean_text (find_meta_content (metas acme_page) [''og:title'', ''twitter:title'']);
          name = tget (parse_from_meta_and_title acme_page ?t1) ''company_name''
      in if truthy headline \<and> truthy name \<and> headline \<noteq> name
         then Some headline else ?t1 ''company_slogan'') = Some (PStr ''Acme Inc'')"
    by code_simp
  have e2: "(let headline = clean_text (find_meta_content (metas acme_page) [''og:title'', ''twitter:title'']);
          name = tget (parse_from_meta_and_title acme_page ?t2) ''company_name''
      in if truthy headline \<and> truthy name \<and> headline \<noteq> name
         then Some headline else ?t2 ''company_slogan'') = Some PNone"
    by code_simp
  from slogan_needs_resolved_name[OF h1, of acme_page] e1
  have a: "parse_from_meta_and_title acme_page ?t1 ''company_slogan'' = Some (PStr ''Acme Inc'')"
    by (simp only:)
  from slogan_needs_resolved_name[OF h2, of acme_page] e2
  have b: "parse_from_meta_and_title acme_page ?t2 ''company_slogan'' = Some PNone"
    by (simp only:)
  from h1 a b show ?thesis by (intro conjI)
qed

section \<open>The empty string in \<^verbatim>\<open>company_specialties\<close>\<close>

lemma no_empty_comp: "no_empty_text f \<Longrightarrow> no_empty_text g \<Longrightarrow> no_empty_text (g \<circ> f)"
  unfolding no_empty_text_def by simp

lemma no_empty_id: "no_empty_text (\<lambda>t. t)"
  unfolding no_empty_text_def by simp

lemma clean_text_not_empty: "clean_text v \<noteq> PStr []"
  by (simp add: clean_text_def Let_def)

lemma safe_int_not_str: "safe_int v \<noteq> PStr s"
  by (cases v) (auto simp: safe_int_def Let_def split: option.splits)

lemma extract_year_not_str: "extract_year text \<noteq> PStr s"
  by (simp add: extract_year_def safe_int_not_str split: option.splits)

lemma scan_tokens_not_str: "scan_tokens keyword prev tokens \<noteq> PStr s"
  by (induction tokens arbitrary: prev) (auto simp: Let_def safe_int_not_str split: option.splits)

lemma near_keyword_not_str: "extract_number_near_keyword text keyword \<noteq> PStr s"
  by (simp add: extract_number_near_keyword_def scan_tokens_not_str)

lemma address_country_not_empty: "address_country a \<noteq> PStr []"
  by (simp add: address_country_def Let_def clean_text_not_empty)

lemma first_piece_not_empty: "filter (\<lambda>p. p \<noteq> []) ps = piece # rest \<Longrightarrow> piece \<noteq> []"
proof -
  assume a: "filter (\<lambda>p. p \<noteq> []) ps = piece # rest"
  have "piece \<in> set (filter (\<lambda>p. p \<noteq> []) ps)" by (simp add: a)
  then show ?thesis by simp
qed

lemma no_empty_ld:
  "no_empty_text (ld_name node)" "no_empty_text (ld_url node)" "no_empty_text (ld_address node)"
  "no_empty_text (ld_description node)" "no_empty_text (ld_employees node)"
  "no_empty_text (ld_logo node)" "no_empty_text (ld_industry node)"
  "no_empty_text (ld_founded node)" "no_empty_text (ld_size node)"
  "no_empty_text (ld_headquarters node)" "no_empty_text (ld_specialties node)"
  unfolding no_empty_text_def ld_name_def ld_url_def ld_address_def ld_description_def
    ld_employees_def ld_logo_def ld_industry_def ld_founded_def ld_size_def
    ld_headquarters_def ld_specialties_def
  by (auto simp: Let_def clean_text_not_empty safe_int_not_str extract_year_not_str
        address_country_not_empty split: pyval.splits)

lemma no_empty_apply_json_ld: "no_empty_text (apply_json_ld node)"
proof (cases "is_candidate node")
  case True
  then have "apply_json_ld node =
      ld_specialties node \<circ> ld_headquarters node \<circ> ld_size node \<circ> ld_founded node
      \<circ> ld_industry node \<circ> ld_logo node \<circ> ld_employees node \<circ> ld_description node
      \<circ> ld_address node \<circ> ld_url node \<circ> ld_name node"
    by (intro ext) (simp add: apply_json_ld_def)
  then show ?thesis by (simp only:) (intro no_empty_comp no_empty_ld)
next
  case False
  then have "apply_json_ld node = (\<lambda>t. t)" by (intro ext) (simp add: apply_json_ld_def)
  then show ?thesis by (simp only: no_empty_id)
qed

lemma no_empty_apply_entry: "no_empty_text (apply_entry entry)"
proof (cases entry)
  case (PDict node)
  then have "apply_entry entry = apply_json_ld node" by (intro ext) (simp add: apply_entry_def)
  then show ?thesis by (simp only: no_empty_apply_json_ld)
qed (simp_all add: apply_entry_def[abs_def] no_empty_id)

lemma no_empty_fold_entries: "no_empty_text (fold apply_entry entries)"
proof (induction entries)
  case Nil
  have "fold apply_entry [] = (\<lambda>t. t)" by (intro ext) simp
  then show ?case by (simp only: no_empty_id)
next
  case (Cons e es)
  have "fold apply_entry (e # es) = fold apply_entry es \<circ> apply_entry e" by simp
  then show ?case by (simp only:) (intro no_empty_comp no_empty_apply_entry Cons.IH)
qed

lemma no_empty_apply_parsed: "no_empty_text (apply_parsed parsed)"
proof (cases parsed)
  case (PList entries)
  then have "apply_parsed parsed = fold apply_entry entries"
    by (intro ext) (simp add: apply_parsed_def)
  then show ?thesis by (simp only: no_empty_fold_entries)
next
  case (PDict node)
  then have "apply_parsed parsed = apply_json_ld node" by (intro ext) (simp add: apply_parsed_def)
  then show ?thesis by (simp only: no_empty_apply_json_ld)
qed (simp_all add: apply_parsed_def[abs_def] no_empty_id)

lemma no_empty_textD:
  "no_empty_text f \<Longrightarrow> k \<noteq> ''company_specialties'' \<Longrightarrow> t k \<noteq> Some (PStr [])
   \<Longrightarrow> f t k \<noteq> Some (PStr [])"
  unfolding no_empty_text_def by blast

lemma parse_from_json_ld_no_empty:
  assumes "parse_from_json_ld E scripts t = Inr t'" and "k \<noteq> ''company_specialties''"
    and "t k \<noteq> Some (PStr [])"
  shows "t' k \<noteq> Some (PStr [])"
  using assms
proof (induction scripts arbitrary: t)
  case Nil
  then show ?case by simp
next
  case (Cons src scripts)
  show ?case
  proof (cases "src = []")
    case True
    with Cons.prems(1) have "parse_from_json_ld E scripts t = Inr t'" by simp
    then show ?thesis using Cons.prems(2,3) by (rule Cons.IH)
  next
    case False
    show ?thesis
    proof (cases "json_loads E src")
      case (Inl exc)
      with False Cons.prems(1) have "parse_from_json_ld E scripts t = Inr t'"
        by (simp split: if_splits)
      then show ?thesis using Cons.prems(2,3) by (rule Cons.IH)
    next
      case (Inr parsed)
      with False Cons.prems(1)
      have 1: "parse_from_json_ld E scripts (apply_parsed parsed t) = Inr t'" by simp
      have 2: "apply_parsed parsed t k \<noteq> Some (PStr [])"
        using no_empty_apply_parsed Cons.prems(2,3) by (rule no_empty_textD)
      from 1 Cons.prems(2) 2 show ?thesis by (rule Cons.IH)
    qed
  qed
qed

lemma no_empty_meta:
  "no_empty_text (meta_title doc)" "no_empty_text (meta_description doc)"
  "no_empty_text (meta_logo doc)" "no_empty_text (meta_cover doc)"
  "no_empty_text (meta_slogan doc)" "no_empty_text (text_followers text)"
  "no_empty_text (text_employees text)"
  unfolding no_empty_text_def meta_title_def meta_description_def meta_logo_def meta_cover_def
    meta_slogan_def text_followers_def text_employees_def
  by (auto simp: Let_def clean_text_not_empty near_keyword_not_str
        split: pyval.splits option.splits list.splits dest: first_piece_not_empty)

lemma no_empty_text_counters: "no_empty_text (text_counters doc)"
proof (cases "body_text doc = []")
  case True
  then have "text_counters doc = (\<lambda>t. t)" by (intro ext) (simp add: text_counters_def)
  then show ?thesis by (simp only: no_empty_id)
next
  case False
  then have "text_counters doc = text_employees (body_text doc) \<circ> text_followers (body_text doc)"
    by (intro ext) (simp add: text_counters_def)
  then show ?thesis by (simp only:) (intro no_empty_comp no_empty_meta)
qed

lemma no_empty_parse_from_meta_and_title: "no_empty_text (parse_from_meta_and_title doc)"
proof -
  have "parse_from_meta_and_title doc =
      text_counters doc \<circ> meta_slogan doc \<circ> meta_cover doc \<circ> meta_logo doc
      \<circ> meta_description doc \<circ> meta_title doc"
    by (intro ext) (simp add: parse_from_meta_and_title_def)
  then show ?thesis by (simp only:) (intro no_empty_comp no_empty_meta no_empty_text_counters)
qed

lemma parse_company_no_empty:
  assumes "parse_company E html url = Inr c" and "url \<noteq> []" and "c k = Some (PStr [])"
  shows "k = ''company_specialties''"
proof (rule ccontr)
  assume k: "k \<noteq> ''company_specialties''"
  from assms(1) obtain doc data where d:
    "parse_from_json_ld E (ld_scripts doc) (new_record url) = Inr data"
    "c = parse_from_meta_and_title doc data"
    by (auto simp: parse_company_def split: sum.splits)
  from assms(2) have "new_record url k \<noteq> Some (PStr [])" by (simp add: new_record_def)
  with d(1) k have "data k \<noteq> Some (PStr [])" by (rule parse_from_json_ld_no_empty)
  with no_empty_parse_from_meta_and_title k have "c k \<noteq> Some (PStr [])"
    unfolding d(2) by (rule no_empty_textD)
  with assms(3) show False by simp
qed

lemma specialties_untouched:
  "ld_name node t ''company_specialties'' = t ''company_specialties''"
  "ld_url node t ''company_specialties'' = t ''company_specialties''"
  "ld_address node t ''company_specialties'' = t ''company_specialties''"
  "ld_description node t ''company_specialties'' = t ''company_specialties''"
  "ld_employees node t ''company_specialties'' = t ''company_specialties''"
  "ld_logo node t ''company_specialties'' = t ''company_specialties''"
  "ld_industry node t ''company_specialties'' = t ''company_specialties''"
  "ld_founded node t ''company_specialties'' = t ''company_specialties''"
  "ld_size node t ''company_specialties'' = t ''company_specialties''"
  "ld_headquarters node t ''company_specialties'' = t ''company_specialties''"
  by (simp_all add: ld_name_def ld_url_def ld_address_def ld_description_def
        ld_employees_def ld_logo_def ld_industry_def ld_founded_def ld_size_def
        ld_headquarters_def Let_def split: pyval.splits)

lemma cleaned_strings_blank:
  "\<forall>x \<in> set xs. clean_text x = PNone \<Longrightarrow> cleaned_strings xs = []"
  by (simp add: cleaned_strings_def)

lemma blank_list_gives_empty:
  assumes "is_candidate node" and "specialties_of node = PList xs"
    and "\<forall>x \<in> set xs. clean_text x = PNone"
    and "\<not> truthy (tget target ''company_specialties'')"
  shows "apply_json_ld node target ''company_specialties'' = Some (PStr [])"
proof -
  let ?t = "ld_headquarters node (ld_size node (ld_founded node
             (ld_industry node (ld_logo node (ld_employees node (ld_description node
               (ld_address node (ld_url node (ld_name node target)))))))))"
  have "?t ''company_specialties'' = target ''company_specialties''"
    by (simp only: specialties_untouched)
  then have "tget ?t ''company_specialties'' = tget target ''company_specialties''"
    by (rule tget_cong)
  with assms(4) have g: "\<not> truthy (tget ?t ''company_specialties'')" by simp
  have "apply_json_ld node target = ld_specialties node ?t"
    using assms(1) by (simp add: apply_json_ld_def)
  moreover have "ld_specialties node ?t ''company_specialties'' = Some (PStr [])"
    using g assms(2) cleaned_strings_blank[OF assms(3)] by (simp add: ld_specialties_def)
  ultimately show ?thesis by simp
qed

text \<open>
  C10. When the value a candidate node gives under \<^verbatim>\<open>knowsAbout\<close>, \<^verbatim>\<open>specialty\<close> or
  \<^verbatim>\<open>specialties\<close> is a non-empty list whose elements all normalize to \<^verbatim>\<open>None\<close>, and
  \<^verbatim>\<open>company_specialties\<close> holds no truthy value yet, \<^verbatim>\<open>_apply_json_ld\<close> binds the field to the
  empty string. It is the only field of a record made by \<^verbatim>\<open>_parse_company\<close> that can hold
  the empty string (\<^verbatim>\<open>company_profile\<close> holds the URL, which the fetcher requires to be
  non-empty and the runner never passes empty).
\<close>

theorem blank_specialties_become_empty_string:
  "(is_candidate node \<and> specialties_of node = PList xs \<and> xs \<noteq> []
      \<and> (\<forall>x \<in> set xs. clean_text x = PNone)
      \<and> \<not> truthy (tget target ''company_specialties'')
     \<longrightarrow> apply_json_ld node target ''company_specialties'' = Some (PStr []))
   \<and> (parse_company E html url = Inr c \<and> url \<noteq> [] \<and> c k = Some (PStr [])
     \<longrightarrow> k = ''company_specialties'')"
  using blank_list_gives_empty parse_company_no_empty by blast

theorem blank_specialties_become_empty_string_witness:
  "is_candidate acme_second_node
   \<and> specialties_of acme_second_node = PList [PStr '' '', PStr []]
   \<and> clean_text (PStr '' '') = PNone \<and> clean_text (PStr []) = PNone
   \<and> apply_json_ld acme_second_node (apply_json_ld acme_first_node (new_record acme_url))
        ''company_specialties'' = Some (PStr [])
   \<and> parse_company example_env ''acme'' acme_url
       = Inr (parse_from_meta_and_title acme_page (apply_parsed acme_nodes (new_record acme_url)))
   \<and> parse_from_meta_and_title acme_page (apply_parsed acme_nodes (new_record acme_url))
        ''company_specialties'' = Some (PStr [])"
proof -
  let ?t = "apply_json_ld acme_first_node (new_record acme_url)"
  let ?c = "parse_from_meta_and_title acme_page (apply_parsed acme_nodes (new_record acme_url))"
  have h1: "is_candidate acme_second_node" by code_simp
  have h2: "specialties_of acme_second_node = PList [PStr '' '', PStr []]" by code_simp
  have h3: "[PStr '' '', PStr []] \<noteq> []" by simp
  have b1: "clean_text (PStr '' '') = PNone" and b2: "clean_text (PStr []) = PNone" by code_simp+
  then have h4: "\<forall>x \<in> set [PStr '' '', PStr []]. clean_text x = PNone" by simp
  have h5: "\<not> truthy (tget ?t ''company_specialties'')" by code_simp
  have p1: "parse_company example_env ''acme'' acme_url = Inr ?c"
    by (simp add: parse_company_def example_env_def acme_page_def)
  have p2: "acme_url \<noteq> []" by (simp add: acme_url_def)
  have p3: "?c ''company_specialties'' = Some (PStr [])" by code_simp
  from blank_specialties_become_empty_string[of acme_second_node "[PStr '' '', PStr []]" ?t
      example_env "''acme''" acme_url ?c "''company_specialties''"] h1 h2 h3 h4 h5
  have a: "apply_json_ld acme_second_node ?t ''company_specialties'' = Some (PStr [])" by blast
  from h1 h2 b1 b2 a p1 p3 show ?thesis by (intro conjI)
qed

end
